theory Spec2Isabelle
  imports Complex_Main "HOL-Library.Sublist"
begin

section \<open>Strings\<close>

text \<open>
  A JavaScript string is modelled as a \<^typ>\<open>string\<close> that holds its text in UTF-8: a
  character outside ASCII is the sequence of its bytes (so the box-drawing bar and the
  dash of the program's banners). \<open>String.prototype.startsWith\<close>, \<open>endsWith\<close> and
  \<open>includes\<close> are \<^const>\<open>prefix\<close>, \<^const>\<open>suffix\<close> and \<^const>\<open>sublist\<close>.
\<close>

definition nl :: string where
  "nl = [CHR 0x0A]"

definition dq :: string where
  "dq = [CHR 0x22]"

definition bq :: string where
  "bq = [CHR 0x60]"

definition emdash :: string where
  "emdash = [CHR 0xE2, CHR 0x80, CHR 0x94]"

definition bar3 :: string where
  "bar3 = concat (replicate 3 [CHR 0xE2, CHR 0x95, CHR 0x90])"

text \<open>\<open>Array.prototype.join\<close>.\<close>

fun join_with :: "string \<Rightarrow> string list \<Rightarrow> string" where
  "join_with sep [] = []"
| "join_with sep [x] = x"
| "join_with sep (x # y # ys) = x @ sep @ join_with sep (y # ys)"

text \<open>\<open>String.prototype.split\<close> with a one-character separator.\<close>

fun split_on :: "char \<Rightarrow> string \<Rightarrow> string list" where
  "split_on c [] = [[]]"
| "split_on c (x # xs) =
     (if x = c then [] # split_on c xs
      else (case split_on c xs of
              [] \<Rightarrow> [[x]]
            | y # ys \<Rightarrow> (x # y) # ys))"

text \<open>
  The white space and the line terminators of the language, each as its UTF-8 bytes: tab,
  line feed, vertical tab, form feed, carriage return, space, U+00A0, U+1680, U+2000 to
  U+200A, U+2028, U+2029, U+202F, U+205F, U+3000 and U+FEFF (the byte-order mark, which
  \<open>readFileSync\<close> leaves in the text). The texts of the model are well-formed UTF-8.
\<close>

definition WHITESPACE :: "string list" where
  "WHITESPACE =
     [[CHR 0x09], [CHR 0x0A], [CHR 0x0B], [CHR 0x0C], [CHR 0x0D], [CHR 0x20],
      [CHR 0xC2, CHR 0xA0], [CHR 0xE1, CHR 0x9A, CHR 0x80]]
     @ map (\<lambda>b. [CHR 0xE2, CHR 0x80, b])
         [CHR 0x80, CHR 0x81, CHR 0x82, CHR 0x83, CHR 0x84, CHR 0x85, CHR 0x86, CHR 0x87,
          CHR 0x88, CHR 0x89, CHR 0x8A, CHR 0xA8, CHR 0xA9, CHR 0xAF]
     @ [[CHR 0xE2, CHR 0x81, CHR 0x9F], [CHR 0xE3, CHR 0x80, CHR 0x80],
        [CHR 0xEF, CHR 0xBB, CHR 0xBF]]"

text \<open>
  The number of bytes of the entry of \<open>ws\<close> that \<open>s\<close> starts with, zero when it starts
  with none; and \<open>s\<close> without the entries of \<open>ws\<close> it starts with.
\<close>

definition spaceAt :: "string list \<Rightarrow> string \<Rightarrow> nat" where
  "spaceAt ws s =
     (case find (\<lambda>w. w \<noteq> [] \<and> prefix w s) ws of Some w \<Rightarrow> length w | None \<Rightarrow> 0)"

function stripStart :: "string list \<Rightarrow> string \<Rightarrow> string" where
  "stripStart ws s = (if spaceAt ws s = 0 then s else stripStart ws (drop (spaceAt ws s) s))"
  by pat_completeness auto
termination
proof (relation "measure (\<lambda>(ws, s). length s)")
  show "wf (measure (\<lambda>(ws, s). length s))"
    by simp
next
  fix ws :: "string list" and s :: string
  assume "spaceAt ws s \<noteq> 0"
  then obtain w where "w \<noteq> []" and "prefix w s"
    by (auto simp: spaceAt_def find_Some_iff split: option.splits)
  then have "s \<noteq> []"
    by auto
  with \<open>spaceAt ws s \<noteq> 0\<close> show "((ws, drop (spaceAt ws s) s), (ws, s)) \<in> measure (\<lambda>(ws, s). length s)"
    by simp
qed

declare stripStart.simps [simp del]

text \<open>\<open>String.prototype.trim\<close>: the white space goes from both ends.\<close>

definition trimStart :: "string \<Rightarrow> string" where
  "trimStart s = stripStart WHITESPACE s"

definition trimEnd :: "string \<Rightarrow> string" where
  "trimEnd s = rev (stripStart (map rev WHITESPACE) (rev s))"

definition trim :: "string \<Rightarrow> string" where
  "trim s = trimEnd (trimStart s)"

text \<open>The decimal text of a non-negative number, as a template literal prints it.\<close>

definition digit_char :: "nat \<Rightarrow> char" where
  "digit_char d = char_of (48 + d)"

fun show_nat :: "nat \<Rightarrow> string" where
  "show_nat n = (if n < 10 then [digit_char n] else show_nat (n div 10) @ [digit_char (n mod 10)])"

declare show_nat.simps [simp del]

definition show_int :: "int \<Rightarrow> string" where
  "show_int i = (if i < 0 then CHR ''-'' # show_nat (nat (- i)) else show_nat (nat i))"

section \<open>Paths (the POSIX functions of Node's \<open>path\<close> module)\<close>

text \<open>The non-empty pieces between slashes.\<close>

definition segments :: "string \<Rightarrow> string list" where
  "segments p = filter (\<lambda>s. s \<noteq> []) (split_on CHR ''/'' p)"

text \<open>
  \<open>normalizeString\<close>: a dot is dropped, two dots remove the segment before them (unless
  that is itself two dots); above the top, two dots are kept when \<open>allowAboveRoot\<close> is
  set and dropped otherwise. The accumulator holds the segments kept so far, last first.
\<close>

fun normalize_segs :: "bool \<Rightarrow> string list \<Rightarrow> string list \<Rightarrow> string list" where
  "normalize_segs allow acc [] = rev acc"
| "normalize_segs allow acc (s # ss) =
     (if s = ''.'' then normalize_segs allow acc ss
      else if s = ''..'' then
        (case acc of
           [] \<Rightarrow> normalize_segs allow (if allow then [''..''] else []) ss
         | a # as \<Rightarrow>
             if a = ''..'' then normalize_segs allow (if allow then ''..'' # acc else acc) ss
             else normalize_segs allow as ss)
      else normalize_segs allow (s # acc) ss)"

definition isAbsolute :: "string \<Rightarrow> bool" where
  "isAbsolute p = prefix ''/'' p"

definition normalize :: "string \<Rightarrow> string" where
  "normalize p =
     (if p = [] then ''.''
      else
        let absolute = isAbsolute p;
            trailing = suffix ''/'' p;
            body = join_with ''/'' (normalize_segs (\<not> absolute) [] (segments p))
        in if body = [] then (if absolute then ''/'' else if trailing then ''./'' else ''.'')
           else (if absolute then ''/'' else []) @ body @ (if trailing then ''/'' else []))"

text \<open>\<open>path.join\<close>: the non-empty arguments, joined by a slash and normalized.\<close>

definition join :: "string list \<Rightarrow> string" where
  "join args =
     (let parts = filter (\<lambda>a. a \<noteq> []) args
      in if parts = [] then ''.'' else normalize (join_with ''/'' parts))"

text \<open>
  \<open>path.resolve\<close> on arguments whose first is absolute and whose others are relative:
  the program calls it once, on the directory of its own module file.
\<close>

definition resolve :: "string list \<Rightarrow> string" where
  "resolve args = ''/'' @ join_with ''/'' (normalize_segs False [] (segments (join_with ''/'' args)))"

text \<open>
  \<open>path.relative\<close> on absolute paths: the common leading segments are dropped, each
  segment left in the first path becomes two dots, the segments left in the second follow.
\<close>

fun drop_common :: "string list \<Rightarrow> string list \<Rightarrow> string list \<times> string list" where
  "drop_common (x # xs) (y # ys) = (if x = y then drop_common xs ys else (x # xs, y # ys))"
| "drop_common xs ys = (xs, ys)"

definition relative :: "string \<Rightarrow> string \<Rightarrow> string" where
  "relative src dst =
     (case drop_common (normalize_segs False [] (segments src))
                       (normalize_segs False [] (segments dst)) of
        (fs, ts) \<Rightarrow> join_with ''/'' (replicate (length fs) ''..'' @ ts))"

text \<open>
  \<open>path.extname\<close> of a name without slashes: from the last dot on, and empty when there
  is no dot, when the last dot is the first character, or when the name is two dots.
\<close>

definition extname :: "string \<Rightarrow> string" where
  "extname name =
     (let ext = takeWhile (\<lambda>c. c \<noteq> CHR ''.'') (rev name)
      in if CHR ''.'' \<notin> set name \<or> length ext + 1 = length name \<or> name = ''..'' then []
         else CHR ''.'' # rev ext)"

section \<open>The local file system\<close>

text \<open>
  A file system is a tree. A file holds its text, or nothing when it cannot be read; a
  directory holds its entries in the order \<open>readdirSync\<close> lists them. Symbolic links,
  unreadable directories and changes during a request are outside the model.
\<close>

datatype fsnode = File "string option" | Dir "(string \<times> fsnode) list"

fun walk :: "fsnode \<Rightarrow> string list \<Rightarrow> fsnode option" where
  "walk n [] = Some n"
| "walk (File c) (s # ss) = None"
| "walk (Dir es) (s # ss) = (case map_of es s of None \<Rightarrow> None | Some n \<Rightarrow> walk n ss)"

text \<open>The node at an absolute path; a path ending in a slash names directories only.\<close>

definition lookup :: "fsnode \<Rightarrow> string \<Rightarrow> fsnode option" where
  "lookup fs p =
     (case walk fs (segments p) of
        Some (File c) \<Rightarrow> if suffix ''/'' p then None else Some (File c)
      | r \<Rightarrow> r)"

definition existsSync :: "fsnode \<Rightarrow> string \<Rightarrow> bool" where
  "existsSync fs p = (lookup fs p \<noteq> None)"

text \<open>\<open>readFileSync\<close>; \<open>None\<close> stands for the exception it throws.\<close>

definition readFileSync :: "fsnode \<Rightarrow> string \<Rightarrow> string option" where
  "readFileSync fs p = (case lookup fs p of Some (File (Some c)) \<Rightarrow> Some c | _ \<Rightarrow> None)"

definition readFileSafe :: "fsnode \<Rightarrow> string \<Rightarrow> string" where
  "readFileSafe fs p =
     (case readFileSync fs p of Some c \<Rightarrow> c | None \<Rightarrow> ''Error: file not found at '' @ p)"

section \<open>The package registry (local variant)\<close>

record PackageInfo =
  pkg_id :: string
  name :: string
  description :: string
  dir :: string
  readmePath :: string
  typesPath :: "string option"
  github :: string

text \<open>
  \<open>PACKAGES_ROOT\<close> is computed at start-up from the directory of the module file, which
  is the parameter \<open>dirname\<close> of everything below.
\<close>

definition PACKAGES_ROOT :: "string \<Rightarrow> string" where
  "PACKAGES_ROOT dirname = resolve [dirname, ''../../react-base-core'']"

definition PACKAGES :: "string \<Rightarrow> PackageInfo list" where
  "PACKAGES dirname =
     [\<lparr>pkg_id = ''react-core'',
       name = ''@gaddario98/react-core'',
       description = ''Modular, type-safe React framework: state, forms, queries, pages, localization, auth, notifications'',
       dir = PACKAGES_ROOT dirname,
       readmePath = join [PACKAGES_ROOT dirname, ''README.md''],
       typesPath = None,
       github = ''https://github.com/gaddario98/react-core''\<rparr>,
      \<lparr>pkg_id = ''react-form'',
       name = ''@gaddario98/react-form'',
       description = ''Dynamic, type-safe form builder on TanStack React Form with Jotai state'',
       dir = join [PACKAGES_ROOT dirname, ''form''],
       readmePath = join [PACKAGES_ROOT dirname, ''form'', ''README.md''],
       typesPath = Some (join [PACKAGES_ROOT dirname, ''form'', ''types.ts'']),
       github = ''https://github.com/gaddario98/react-form''\<rparr>,
      \<lparr>pkg_id = ''react-queries'',
       name = ''@gaddario98/react-queries'',
       description = ''Unified data fetching layer on TanStack Query + Jotai: queries, mutations, WebSockets'',
       dir = join [PACKAGES_ROOT dirname, ''queries''],
       readmePath = join [PACKAGES_ROOT dirname, ''queries'', ''README.md''],
       typesPath = Some (join [PACKAGES_ROOT dirname, ''queries'', ''types.ts'']),
       github = ''https://github.com/gaddario98/react-queries''\<rparr>,
      \<lparr>pkg_id = ''react-pages'',
       name = ''@gaddario98/react-pages'',
       description = ''Page orchestrator: forms + queries + SEO + lazy loading + cross-platform'',
       dir = join [PACKAGES_ROOT dirname, ''pages''],
       readmePath = join [PACKAGES_ROOT dirname, ''pages'', ''README.md''],
       typesPath = Some (join [PACKAGES_ROOT dirname, ''pages'', ''types.ts'']),
       github = ''https://github.com/gaddario98/react-pages''\<rparr>]"

text \<open>\<open>id.replace(/^@gaddario98\//, "")\<close>.\<close>

definition strip_scope :: "string \<Rightarrow> string" where
  "strip_scope i = (if prefix ''@gaddario98/'' i then drop (length ''@gaddario98/'') i else i)"

definition findPackage :: "string \<Rightarrow> string \<Rightarrow> PackageInfo option" where
  "findPackage dirname i =
     find (\<lambda>p. pkg_id p = i \<or> name p = i \<or> pkg_id p = strip_scope i) (PACKAGES dirname)"

text \<open>A value of type \<open>string | null | undefined\<close> is falsy when absent or empty.\<close>

definition falsy :: "string option \<Rightarrow> bool" where
  "falsy v = (v = None \<or> v = Some [])"

section \<open>Enumerating source files\<close>

datatype error = ENOTDIR string | SyntaxError string

definition IGNORE :: "string list" where
  "IGNORE = [''node_modules'', ''dist'', ''.git'', ''.github'', ''.claude'']"

definition EXTENSIONS :: "string list" where
  "EXTENSIONS = [''.ts'', ''.tsx'', ''.js'', ''.jsx'']"

text \<open>
  The loop of \<open>collectSourceFiles\<close> over the entries of one directory. The recursive call
  on a sub-directory finds it present (it was just listed), so it runs on the entries of
  that sub-directory.
\<close>

fun collectEntries :: "string list \<Rightarrow> string \<Rightarrow> string \<Rightarrow> (string \<times> fsnode) list \<Rightarrow> string list" where
  "collectEntries exts base d [] = []"
| "collectEntries exts base d ((entry, node) # es) =
     (if entry \<in> set IGNORE then collectEntries exts base d es
      else
        (case node of
           Dir sub \<Rightarrow> collectEntries exts base (join [d, entry]) sub
         | File c \<Rightarrow>
             if extname entry \<in> set exts then [relative base (join [d, entry])] else [])
        @ collectEntries exts base d es)"

text \<open>
  \<open>collectSourceFiles(dir)\<close> with its default arguments: nothing when the directory is
  absent; \<open>readdirSync\<close> throws when the path is not a directory.
\<close>

definition collectSourceFiles :: "fsnode \<Rightarrow> string \<Rightarrow> error + string list" where
  "collectSourceFiles fs d =
     (if \<not> existsSync fs d then Inr []
      else (case lookup fs d of
              Some (Dir es) \<Rightarrow> Inr (collectEntries EXTENSIONS d d es)
            | _ \<Rightarrow> Inl (ENOTDIR d)))"

section \<open>Searching a package\<close>

text \<open>
  The regular-expression engine is the platform's. It is a parameter: \<open>compile\<close> is
  \<open>new RegExp(pattern, "gi")\<close>, with \<open>None\<close> for the \<open>SyntaxError\<close> it throws, and
  \<open>exec r s i\<close> is the end of the first match of \<open>r\<close> in \<open>s\<close> that starts at index \<open>i\<close> or
  later, if there is one.
\<close>

record 'r regex_engine =
  compile :: "string \<Rightarrow> 'r option"
  exec :: "'r \<Rightarrow> string \<Rightarrow> nat \<Rightarrow> nat option"

text \<open>
  \<open>RegExp.prototype.test\<close> of a global expression: the search starts at \<open>lastIndex\<close>; a
  match leaves \<open>lastIndex\<close> at its end, a failure leaves it at zero.
\<close>

definition regex_test :: "'r regex_engine \<Rightarrow> 'r \<Rightarrow> nat \<Rightarrow> string \<Rightarrow> bool \<times> nat" where
  "regex_test eng r lastIndex s =
     (if lastIndex > length s then (False, 0)
      else (case exec eng r s lastIndex of None \<Rightarrow> (False, 0) | Some e \<Rightarrow> (True, e)))"

text \<open>\<open>pattern.replace(/[.*+?^${}()|[\]\\]/g, "\\$&")\<close>.\<close>

definition METACHARS :: "char list" where
  "METACHARS = ''.*+?^${}()|[]'' @ [CHR 0x5C]"

definition escapeRegExp :: "string \<Rightarrow> string" where
  "escapeRegExp pattern =
     concat (map (\<lambda>c. if c \<in> set METACHARS then [CHR 0x5C, c] else [c]) pattern)"

definition compileOrEscape :: "'r regex_engine \<Rightarrow> string \<Rightarrow> error + 'r" where
  "compileOrEscape eng pattern =
     (case compile eng pattern of
        Some r \<Rightarrow> Inr r
      | None \<Rightarrow>
          (case compile eng (escapeRegExp pattern) of
             Some r \<Rightarrow> Inr r
           | None \<Rightarrow> Inl (SyntaxError (escapeRegExp pattern))))"

record match =
  mfile :: string
  mline :: nat
  mcontent :: string

datatype io_event = ListDir string | ReadFile string

text \<open>
  \<open>maxResults\<close> is a number: the schema of the tool asks for no more. A finite number is
  a rational here, and the loops compare the number of results with it as the code does.
\<close>

text \<open>
  The loop over the lines of one file, from index \<open>i\<close>, on the results so far and the
  \<open>lastIndex\<close> of the expression.
\<close>

fun scanLines ::
  "'r regex_engine \<Rightarrow> 'r \<Rightarrow> rat \<Rightarrow> string \<Rightarrow> string list \<Rightarrow> nat \<Rightarrow> match list \<times> nat \<Rightarrow> match list \<times> nat" where
  "scanLines eng r maxResults f [] i (results, lastIndex) = (results, lastIndex)"
| "scanLines eng r maxResults f (l # ls) i (results, lastIndex) =
     (if of_nat (length results) \<ge> maxResults then (results, lastIndex)
      else (case regex_test eng r lastIndex l of
              (True, e) \<Rightarrow>
                scanLines eng r maxResults f ls (i + 1)
                  (results @ [\<lparr>mfile = f, mline = i + 1, mcontent = trim l\<rparr>], 0)
            | (False, e) \<Rightarrow> scanLines eng r maxResults f ls (i + 1) (results, e)))"

text \<open>
  The loop over the files of one package. The trace records every path handed to
  \<open>readFileSync\<close>; a file that cannot be read is skipped.
\<close>

fun scanFiles ::
  "'r regex_engine \<Rightarrow> 'r \<Rightarrow> rat \<Rightarrow> fsnode \<Rightarrow> string \<Rightarrow> string list \<Rightarrow>
     match list \<times> nat \<times> io_event list \<Rightarrow> match list \<times> nat \<times> io_event list" where
  "scanFiles eng r maxResults fs d [] (results, lastIndex, trace) = (results, lastIndex, trace)"
| "scanFiles eng r maxResults fs d (f # rest) (results, lastIndex, trace) =
     (if of_nat (length results) \<ge> maxResults then (results, lastIndex, trace)
      else
        let fullPath = join [d, f] in
        (case readFileSync fs fullPath of
           None \<Rightarrow> scanFiles eng r maxResults fs d rest (results, lastIndex, trace @ [ReadFile fullPath])
         | Some text \<Rightarrow>
             (case scanLines eng r maxResults f (split_on CHR 0x0A text) 0 (results, lastIndex) of
                (results', lastIndex') \<Rightarrow>
                  scanFiles eng r maxResults fs d rest (results', lastIndex', trace @ [ReadFile fullPath]))))"

text \<open>
  \<open>searchInPackage\<close>: the files are listed, the expression is built, the files are
  scanned. The trace of file-system accesses is threaded through.
\<close>

definition searchInPackage ::
  "'r regex_engine \<Rightarrow> fsnode \<Rightarrow> PackageInfo \<Rightarrow> string \<Rightarrow> rat \<Rightarrow> io_event list \<Rightarrow>
     error + (match list \<times> io_event list)" where
  "searchInPackage eng fs p pattern maxResults trace =
     (case collectSourceFiles fs (dir p) of
        Inl e \<Rightarrow> Inl e
      | Inr files \<Rightarrow>
          (case compileOrEscape eng pattern of
             Inl e \<Rightarrow> Inl e
           | Inr r \<Rightarrow>
               (case scanFiles eng r maxResults fs (dir p) files ([], 0, trace @ [ListDir (dir p)]) of
                  (results, lastIndex, trace') \<Rightarrow> Inr (results, trace'))))"

section \<open>The tools (local variant)\<close>

text \<open>
  What a tool returns: the text of its one content item and the error flag. A handler
  that sets no flag returns a success.
\<close>

record envelope =
  etext :: string
  isError :: bool

definition ok :: "string \<Rightarrow> envelope" where
  "ok t = \<lparr>etext = t, isError = False\<rparr>"

definition err :: "string \<Rightarrow> envelope" where
  "err t = \<lparr>etext = t, isError = True\<rparr>"

definition notFound :: "string \<Rightarrow> string \<Rightarrow> string" where
  "notFound dirname packageId =
     ''Package '' @ dq @ packageId @ dq @ '' not found. Available: ''
       @ join_with '', '' (map pkg_id (PACKAGES dirname))"

definition get_package_docs :: "fsnode \<Rightarrow> string \<Rightarrow> string \<Rightarrow> envelope" where
  "get_package_docs fs dirname packageId =
     (case findPackage dirname packageId of
        None \<Rightarrow> err (notFound dirname packageId)
      | Some p \<Rightarrow> ok (readFileSafe fs (readmePath p)))"

text \<open>
  One section of the aggregated types. It is built for packages that have a types path
  only, so the other case is never reached.
\<close>

definition subTypes :: "fsnode \<Rightarrow> string \<Rightarrow> PackageInfo \<Rightarrow> string" where
  "subTypes fs dirname p =
     (case typesPath p of
        None \<Rightarrow> []
      | Some tp \<Rightarrow>
          ''// '' @ bar3 @ '' '' @ name p @ '' types '' @ bar3 @ nl
            @ ''// File: '' @ relative (PACKAGES_ROOT dirname) tp @ nl @ nl
            @ readFileSafe fs tp)"

definition aggregatedTypes :: "fsnode \<Rightarrow> string \<Rightarrow> string" where
  "aggregatedTypes fs dirname =
     ''// @gaddario98/react-core aggregated types'' @ nl
       @ ''// The core package re-exports from sub-modules:'' @ nl @ nl
       @ join_with (nl @ nl)
           (map (subTypes fs dirname) (filter (\<lambda>q. \<not> falsy (typesPath q)) (PACKAGES dirname)))"

definition get_package_types :: "fsnode \<Rightarrow> string \<Rightarrow> string \<Rightarrow> envelope" where
  "get_package_types fs dirname packageId =
     (case findPackage dirname packageId of
        None \<Rightarrow> err (notFound dirname packageId)
      | Some p \<Rightarrow>
          if falsy (typesPath p) then ok (aggregatedTypes fs dirname)
          else
            (case typesPath p of
               None \<Rightarrow> ok []
             | Some tp \<Rightarrow>
                 ok (''// '' @ name p @ '' '' @ emdash @ '' ''
                     @ relative (PACKAGES_ROOT dirname) tp @ nl @ nl @ readFileSafe fs tp)))"

text \<open>The text that lists the source files of a package.\<close>

definition sourceListing :: "string \<Rightarrow> string list \<Rightarrow> string" where
  "sourceListing pname files =
     ''# Source files in '' @ pname @ nl @ nl
       @ join_with nl (map (\<lambda>f. ''- '' @ bq @ f @ bq) files)
       @ nl @ nl @ ''---'' @ nl
       @ ''Use '' @ bq @ ''get_package_source'' @ bq @ '' with a '' @ bq
       @ ''filePath'' @ bq @ '' to read a specific file.''"

text \<open>
  A handler that lists a directory can fail with what \<open>collectSourceFiles\<close> throws. In
  the handlers, the case of an absent value after the test for a falsy one is never
  reached.
\<close>

definition get_package_source ::
  "fsnode \<Rightarrow> string \<Rightarrow> string \<Rightarrow> string option \<Rightarrow> error + envelope" where
  "get_package_source fs dirname packageId filePath =
     (case findPackage dirname packageId of
        None \<Rightarrow> Inr (err (notFound dirname packageId))
      | Some p \<Rightarrow>
          if falsy filePath then
            (case collectSourceFiles fs (dir p) of
               Inl e \<Rightarrow> Inl e
             | Inr files \<Rightarrow>
                 Inr (ok (sourceListing (name p) files)))
          else
            (case filePath of
               None \<Rightarrow> Inr (err [])
             | Some fp \<Rightarrow>
                 let fullPath = join [dir p, fp] in
                 if \<not> prefix (dir p) fullPath then Inr (err ''Error: path traversal not allowed'')
                 else if \<not> existsSync fs fullPath then
                   (case collectSourceFiles fs (dir p) of
                      Inl e \<Rightarrow> Inl e
                    | Inr files \<Rightarrow>
                        Inr (err (''File not found: '' @ fp @ nl @ nl @ ''Available files:'' @ nl
                                  @ join_with nl (map (\<lambda>f. ''- '' @ f) files))))
                 else
                   Inr (ok (''// '' @ name p @ '' '' @ emdash @ '' '' @ fp @ nl @ nl
                            @ readFileSafe fs fullPath))))"

text \<open>The loop of \<open>search_source\<close> over the packages; a match is kept with its package id.\<close>

fun searchLoop ::
  "'r regex_engine \<Rightarrow> fsnode \<Rightarrow> string \<Rightarrow> rat \<Rightarrow> PackageInfo list \<Rightarrow>
     (string \<times> match) list \<times> io_event list \<Rightarrow> error + ((string \<times> match) list \<times> io_event list)" where
  "searchLoop eng fs pattern maxResults [] (allResults, trace) = Inr (allResults, trace)"
| "searchLoop eng fs pattern maxResults (p # rest) (allResults, trace) =
     (case searchInPackage eng fs p pattern (maxResults - of_nat (length allResults)) trace of
        Inl e \<Rightarrow> Inl e
      | Inr (results, trace') \<Rightarrow>
          let allResults' = allResults @ map (\<lambda>r. (pkg_id p, r)) results in
          if of_nat (length allResults') \<ge> maxResults then Inr (allResults', trace')
          else searchLoop eng fs pattern maxResults rest (allResults', trace'))"

definition packagesToSearch :: "string \<Rightarrow> string \<Rightarrow> PackageInfo list" where
  "packagesToSearch dirname packageId =
     (if packageId = ''all'' then PACKAGES dirname
      else (case findPackage dirname packageId of None \<Rightarrow> [] | Some p \<Rightarrow> [p]))"

definition searchAll ::
  "'r regex_engine \<Rightarrow> fsnode \<Rightarrow> string \<Rightarrow> string \<Rightarrow> string \<Rightarrow> rat \<Rightarrow>
     error + ((string \<times> match) list \<times> io_event list)" where
  "searchAll eng fs dirname packageId pattern maxResults =
     searchLoop eng fs pattern maxResults (packagesToSearch dirname packageId) ([], [])"

definition showMatch :: "string \<times> match \<Rightarrow> string" where
  "showMatch r =
     ''**'' @ fst r @ ''** '' @ emdash @ '' '' @ bq @ mfile (snd r) @ '':''
       @ show_nat (mline (snd r)) @ bq @ nl
       @ bq @ bq @ bq @ nl @ mcontent (snd r) @ nl @ bq @ bq @ bq"

definition resultsText :: "string \<Rightarrow> (string \<times> match) list \<Rightarrow> string" where
  "resultsText pattern allResults =
     ''# Search results for '' @ dq @ pattern @ dq @ nl @ nl
       @ ''Found '' @ show_nat (length allResults) @ '' match''
       @ (if length allResults > 1 then ''es'' else []) @ '':'' @ nl @ nl
       @ join_with (nl @ nl) (map showMatch allResults)"

definition search_source ::
  "'r regex_engine \<Rightarrow> fsnode \<Rightarrow> string \<Rightarrow> string \<Rightarrow> string \<Rightarrow> rat \<Rightarrow> error + envelope" where
  "search_source eng fs dirname packageId pattern maxResults =
     (if packagesToSearch dirname packageId = [] then
        Inr (err (notFound dirname packageId @ '', or use '' @ [CHR 0x27] @ ''all'' @ [CHR 0x27]))
      else
        (case searchAll eng fs dirname packageId pattern maxResults of
           Inl e \<Rightarrow> Inl e
         | Inr (allResults, trace) \<Rightarrow>
             if allResults = [] then
               Inr (ok (''No results found for pattern '' @ dq @ pattern @ dq @ '' in ''
                        @ (if packageId = ''all'' then ''any package'' else packageId)))
             else
               Inr (ok (resultsText pattern allResults))))"

section \<open>The remote variant\<close>

text \<open>
  The hosting service is a parameter: \<open>fetch\<close> maps a URL to the response, or to the
  message of the error it rejects with. A response carries its status, its status text
  and its payload (the text of a raw file, or the decoded JSON of an API answer).
\<close>

record 'b response =
  status :: nat
  statusText :: string
  payload :: 'b

definition response_ok :: "'b response \<Rightarrow> bool" where
  "response_ok resp = (200 \<le> status resp \<and> status resp \<le> 299)"

text \<open>Both helpers throw an \<open>Error\<close>; \<open>Inl\<close> carries its message.\<close>

definition fetchGitHubAPI :: "(string \<Rightarrow> string + 'j response) \<Rightarrow> string \<Rightarrow> string + 'j" where
  "fetchGitHubAPI fetch endpoint =
     (case fetch (''https://api.github.com'' @ endpoint) of
        Inl m \<Rightarrow> Inl m
      | Inr resp \<Rightarrow>
          if \<not> response_ok resp then
            Inl (''GitHub API Error: '' @ show_nat (status resp) @ '' '' @ statusText resp)
          else Inr (payload resp))"

definition fetchRawFile ::
  "(string \<Rightarrow> string + string response) \<Rightarrow> string \<Rightarrow> string \<Rightarrow> string \<Rightarrow> string + string" where
  "fetchRawFile fetch rp br path =
     (case fetch (''https://raw.githubusercontent.com/'' @ rp @ ''/'' @ br @ ''/'' @ path) of
        Inl m \<Rightarrow> Inl m
      | Inr resp \<Rightarrow>
          if \<not> response_ok resp then
            (if status resp = 404 then Inl (''File not found: '' @ path @ '' in '' @ rp)
             else Inl (''Failed to fetch file: '' @ statusText resp))
          else Inr (payload resp))"

record RemotePackageInfo =
  r_id :: string
  r_name :: string
  r_description :: string
  repo :: string
  branch :: string
  basePath :: string
  r_readmePath :: string
  r_typesPath :: "string option"
  r_github :: string

definition PACKAGES_remote :: "RemotePackageInfo list" where
  "PACKAGES_remote =
     [\<lparr>r_id = ''react-core'',
       r_name = ''@gaddario98/react-core'',
       r_description = ''Modular, type-safe React framework: state, forms, queries, pages, localization, auth, notifications'',
       repo = ''gaddario98/react-core'',
       branch = ''master'',
       basePath = [],
       r_readmePath = ''README.md'',
       r_typesPath = None,
       r_github = ''https://github.com/gaddario98/react-core''\<rparr>,
      \<lparr>r_id = ''react-form'',
       r_name = ''@gaddario98/react-form'',
       r_description = ''Dynamic, type-safe form builder on TanStack React Form with Jotai state'',
       repo = ''gaddario98/react-base-form'',
       branch = ''master'',
       basePath = [],
       r_readmePath = ''README.md'',
       r_typesPath = Some ''types.ts'',
       r_github = ''https://github.com/gaddario98/react-base-form''\<rparr>,
      \<lparr>r_id = ''react-queries'',
       r_name = ''@gaddario98/react-queries'',
       r_description = ''Unified data fetching layer on TanStack Query + Jotai: queries, mutations, WebSockets'',
       repo = ''gaddario98/react-base-queries'',
       branch = ''master'',
       basePath = [],
       r_readmePath = ''README.md'',
       r_typesPath = Some ''types.ts'',
       r_github = ''https://github.com/gaddario98/react-base-queries''\<rparr>,
      \<lparr>r_id = ''react-pages'',
       r_name = ''@gaddario98/react-pages'',
       r_description = ''Page orchestrator: forms + queries + SEO + lazy loading + cross-platform'',
       repo = ''gaddario98/react-base-pages'',
       branch = ''master'',
       basePath = [],
       r_readmePath = ''README.md'',
       r_typesPath = Some ''types.ts'',
       r_github = ''https://github.com/gaddario98/react-base-pages''\<rparr>]"

definition findPackage_remote :: "string \<Rightarrow> RemotePackageInfo option" where
  "findPackage_remote i =
     find (\<lambda>p. r_id p = i \<or> r_name p = i \<or> r_id p = strip_scope i) PACKAGES_remote"

definition notFound_remote :: "string \<Rightarrow> string" where
  "notFound_remote packageId =
     ''Package '' @ dq @ packageId @ dq @ '' not found. Available: ''
       @ join_with '', '' (map r_id PACKAGES_remote)"

definition get_package_docs_remote ::
  "(string \<Rightarrow> string + string response) \<Rightarrow> string \<Rightarrow> envelope" where
  "get_package_docs_remote fetch packageId =
     (case findPackage_remote packageId of
        None \<Rightarrow> err (notFound_remote packageId)
      | Some p \<Rightarrow>
          (case fetchRawFile fetch (repo p) (branch p) (r_readmePath p) of
             Inr t \<Rightarrow> ok t
           | Inl m \<Rightarrow> err (''Error fetching documentation: '' @ m)))"

text \<open>
  One section of the aggregated types; as in the local variant it is built for packages
  that have a types path.
\<close>

definition subTypes_remote ::
  "(string \<Rightarrow> string + string response) \<Rightarrow> RemotePackageInfo \<Rightarrow> string" where
  "subTypes_remote fetch p =
     (case r_typesPath p of
        None \<Rightarrow> []
      | Some tp \<Rightarrow>
          (case fetchRawFile fetch (repo p) (branch p) tp of
             Inr t \<Rightarrow>
               ''// '' @ bar3 @ '' '' @ r_name p @ '' types '' @ bar3 @ nl
                 @ ''// File: '' @ tp @ nl @ nl @ t
           | Inl m \<Rightarrow> ''// '' @ bar3 @ '' '' @ r_name p @ '' types: Not Available '' @ bar3))"

definition aggregatedTypes_remote :: "(string \<Rightarrow> string + string response) \<Rightarrow> string" where
  "aggregatedTypes_remote fetch =
     ''// @gaddario98/react-core aggregated types'' @ nl
       @ ''// The core package re-exports from sub-modules:'' @ nl @ nl
       @ join_with (nl @ nl)
           (map (subTypes_remote fetch) (filter (\<lambda>q. r_typesPath q \<noteq> None) PACKAGES_remote))"

definition get_package_types_remote ::
  "(string \<Rightarrow> string + string response) \<Rightarrow> string \<Rightarrow> envelope" where
  "get_package_types_remote fetch packageId =
     (case findPackage_remote packageId of
        None \<Rightarrow> err (notFound_remote packageId)
      | Some p \<Rightarrow>
          if falsy (r_typesPath p) then ok (aggregatedTypes_remote fetch)
          else
            (case r_typesPath p of
               None \<Rightarrow> ok []
             | Some tp \<Rightarrow>
                 (case fetchRawFile fetch (repo p) (branch p) tp of
                    Inr t \<Rightarrow> ok (''// '' @ r_name p @ '' '' @ emdash @ '' '' @ tp @ nl @ nl @ t)
                  | Inl m \<Rightarrow> err (''Error fetching types: '' @ m))))"

text \<open>An entry of the recursive tree listing of the hosting service.\<close>

record tree_item =
  item_type :: string
  item_path :: string

text \<open>\<open>String.prototype.replace\<close> with a string pattern: the first occurrence goes.\<close>

fun replace_first :: "string \<Rightarrow> string \<Rightarrow> string" where
  "replace_first pat [] = []"
| "replace_first pat (c # cs) =
     (if prefix pat (c # cs) then drop (length pat) (c # cs) else c # replace_first pat cs)"

text \<open>The filter of the listing; \<open>/\.(ts|tsx|js|jsx)$/\<close> asks for one of four endings.\<close>

definition keepPath :: "RemotePackageInfo \<Rightarrow> string \<Rightarrow> bool" where
  "keepPath p path =
     (if basePath p \<noteq> [] \<and> \<not> prefix (basePath p @ ''/'') path then False
      else if list_ex (\<lambda>ignore. sublist (''/'' @ ignore @ ''/'') path \<or> prefix (ignore @ ''/'') path) IGNORE
        then False
      else list_ex (\<lambda>e. suffix e path) [''.ts'', ''.tsx'', ''.js'', ''.jsx''])"

definition listFiles_remote :: "RemotePackageInfo \<Rightarrow> tree_item list \<Rightarrow> string list" where
  "listFiles_remote p tree =
     map (\<lambda>path. if basePath p \<noteq> [] then replace_first (basePath p @ ''/'') path else path)
       (filter (keepPath p) (map item_path (filter (\<lambda>item. item_type item = ''blob'') tree)))"

text \<open>
  \<open>get_package_source\<close>: \<open>tree_api\<close> answers the tree request, \<open>fetch\<close> the raw-file
  request, \<open>token\<close> is the credential of the environment.
\<close>

definition get_package_source_remote ::
  "(string \<Rightarrow> string + tree_item list response) \<Rightarrow> (string \<Rightarrow> string + string response) \<Rightarrow>
     string option \<Rightarrow> string \<Rightarrow> string option \<Rightarrow> envelope" where
  "get_package_source_remote tree_api fetch token packageId filePath =
     (case findPackage_remote packageId of
        None \<Rightarrow> err (notFound_remote packageId)
      | Some p \<Rightarrow>
          if falsy filePath then
            (case fetchGitHubAPI tree_api
                    (''/repos/'' @ repo p @ ''/git/trees/'' @ branch p @ ''?recursive=1'') of
               Inr tree \<Rightarrow> ok (sourceListing (r_name p) (listFiles_remote p tree))
             | Inl m \<Rightarrow>
                 err (''Error listing files: '' @ m
                      @ (if falsy token
                         then nl @ ''Note: Rate limiting may occur without GITHUB_TOKEN configured.''
                         else [])))
          else
            (case filePath of
               None \<Rightarrow> err []
             | Some fp \<Rightarrow>
                 let fullPath = (if basePath p \<noteq> [] then basePath p @ ''/'' @ fp else fp) in
                 (case fetchRawFile fetch (repo p) (branch p) fullPath of
                    Inr t \<Rightarrow> ok (''// '' @ r_name p @ '' '' @ emdash @ '' '' @ fp @ nl @ nl @ t)
                  | Inl m \<Rightarrow> err (''Error fetching source file: '' @ m))))"

text \<open>A hit of the code search, and the answer of the search request.\<close>

record search_item =
  hit_path :: string
  html_url :: string
  full_name :: string

record search_data =
  total_count :: int
  items :: "search_item list option"

text \<open>\<open>Array.from(new Set(xs))\<close>: the first occurrence of each element, in order.\<close>

fun uniq :: "string list \<Rightarrow> string list" where
  "uniq [] = []"
| "uniq (x # xs) = x # filter (\<lambda>y. y \<noteq> x) (uniq xs)"

definition searchQuery :: "string \<Rightarrow> string \<Rightarrow> string" where
  "searchQuery packageId pattern =
     (case findPackage_remote packageId of
        Some p \<Rightarrow>
          if packageId \<noteq> ''all'' then pattern @ '' in:file'' @ '' repo:'' @ repo p
          else pattern @ '' in:file'' @ '' ''
                 @ join_with '' '' (map (\<lambda>r. ''repo:'' @ r) (uniq (map repo PACKAGES_remote)))
      | None \<Rightarrow>
          pattern @ '' in:file'' @ '' ''
            @ join_with '' '' (map (\<lambda>r. ''repo:'' @ r) (uniq (map repo PACKAGES_remote))))"

definition showHit :: "search_item \<Rightarrow> string" where
  "showHit item =
     (let pkgIdMatch =
        (if full_name item = ''gaddario98/react-base-form'' then ''react-form''
         else if full_name item = ''gaddario98/react-base-queries'' then ''react-queries''
         else if full_name item = ''gaddario98/react-base-pages'' then ''react-pages''
         else ''react-core'')
      in ''**'' @ full_name item @ '' ('' @ pkgIdMatch @ '')** '' @ emdash @ '' '' @ bq @ hit_path item
           @ bq @ nl @ ''[View File on GitHub]('' @ html_url item @ '')'')"

text \<open>
  \<open>search_source\<close>: \<open>encodeURIComponent\<close> is the platform's and a parameter, \<open>search_api\<close>
  answers the search request.
\<close>

definition search_source_remote ::
  "(string \<Rightarrow> string) \<Rightarrow> (string \<Rightarrow> string + search_data response) \<Rightarrow> string \<Rightarrow> string \<Rightarrow> envelope" where
  "search_source_remote encodeURIComponent search_api packageId pattern =
     (case fetchGitHubAPI search_api
             (''/search/code?q='' @ encodeURIComponent (searchQuery packageId pattern)) of
        Inl m \<Rightarrow>
          err (''GitHub API Search Error: '' @ m @ nl @ nl
               @ ''Note: GitHub Code Search requires authentication. Make sure GITHUB_TOKEN is set in your environment.'')
      | Inr searchData \<Rightarrow>
          (case items searchData of
             None \<Rightarrow>
               ok (''No results found on GitHub for pattern '' @ dq @ pattern @ dq @ '' in ''
                   @ (if packageId = ''all'' then ''any package'' else packageId))
           | Some hits \<Rightarrow>
               if hits = [] then
                 ok (''No results found on GitHub for pattern '' @ dq @ pattern @ dq @ '' in ''
                     @ (if packageId = ''all'' then ''any package'' else packageId))
               else
                 ok (''# GitHub Search results for '' @ dq @ pattern @ dq @ nl @ nl
                     @ ''Found '' @ show_int (total_count searchData)
                     @ '' files containing the pattern:'' @ nl @ nl
                     @ join_with (nl @ nl) (map showHit hits) @ nl @ nl
                     @ ''Use '' @ bq @ ''get_package_source'' @ bq
                     @ '' to read the specific contents of a file.'')))"

section \<open>Specification of the search\<close>

text \<open>
  What the search is meant to return, written without the loop state: every line is
  tested on its own from index zero, a matching line gives one match with its 1-based
  number and its trimmed text, files that cannot be read give nothing.
\<close>

fun matchingLines :: "'r regex_engine \<Rightarrow> 'r \<Rightarrow> string \<Rightarrow> string list \<Rightarrow> nat \<Rightarrow> match list" where
  "matchingLines eng r f [] i = []"
| "matchingLines eng r f (l # ls) i =
     (if exec eng r l 0 \<noteq> None then [\<lparr>mfile = f, mline = i + 1, mcontent = trim l\<rparr>] else [])
       @ matchingLines eng r f ls (i + 1)"

definition fileMatches :: "'r regex_engine \<Rightarrow> 'r \<Rightarrow> fsnode \<Rightarrow> string \<Rightarrow> string \<Rightarrow> match list" where
  "fileMatches eng r fs d f =
     (case readFileSync fs (join [d, f]) of
        None \<Rightarrow> []
      | Some text \<Rightarrow> matchingLines eng r f (split_on CHR 0x0A text) 0)"

definition filesOf :: "fsnode \<Rightarrow> string \<Rightarrow> string list" where
  "filesOf fs d = (case collectSourceFiles fs d of Inr files \<Rightarrow> files | Inl e \<Rightarrow> [])"

definition packageMatches ::
  "'r regex_engine \<Rightarrow> 'r \<Rightarrow> fsnode \<Rightarrow> PackageInfo \<Rightarrow> (string \<times> match) list" where
  "packageMatches eng r fs p =
     map (\<lambda>m. (pkg_id p, m)) (concat (map (fileMatches eng r fs (dir p)) (filesOf fs (dir p))))"

section \<open>Literal patterns of the language\<close>

text \<open>
  The syntax characters of a pattern, as the language defines them, and the patterns that
  hold only ordinary characters and syntax characters behind a backslash. Such a pattern
  stands for a text: the ordinary characters as they are, the escaped ones without their
  backslash. Nothing here is taken from the program.
\<close>

definition SYNTAX_CHARACTERS :: "char list" where
  "SYNTAX_CHARACTERS = ''^$'' @ [CHR 0x5C] @ ''.*+?()[]{}|''"

fun literalPattern :: "string \<Rightarrow> string option" where
  "literalPattern [] = Some []"
| "literalPattern (c # cs) =
     (if c = CHR 0x5C then
        (case cs of
           [] \<Rightarrow> None
         | x # xs \<Rightarrow>
             if x \<in> set SYNTAX_CHARACTERS then map_option ((#) x) (literalPattern xs) else None)
      else if c \<in> set SYNTAX_CHARACTERS then None
      else map_option ((#) c) (literalPattern cs))"

text \<open>
  What the language promises of an engine on these patterns: they compile, and with the
  flags \<open>g\<close> and \<open>i\<close> the expression matches, from index zero, every string in which the
  text of the pattern occurs.
\<close>

definition matches_literals :: "'r regex_engine \<Rightarrow> bool" where
  "matches_literals eng =
     (\<forall>q lit. literalPattern q = Some lit \<longrightarrow>
        (\<exists>r. compile eng q = Some r \<and> (\<forall>s. sublist lit s \<longrightarrow> exec eng r s 0 \<noteq> None)))"

section \<open>Well-formed file systems\<close>

text \<open>
  An entry name is not empty, holds no slash and is neither a dot nor two dots.
\<close>

definition wf_name :: "string \<Rightarrow> bool" where
  "wf_name n = (n \<noteq> [] \<and> CHR ''/'' \<notin> set n \<and> n \<noteq> ''.'' \<and> n \<noteq> ''..'')"

fun wf_fs :: "fsnode \<Rightarrow> bool" where
  "wf_fs (File c) = True"
| "wf_fs (Dir es) = (\<forall>e \<in> set es. wf_name (fst e) \<and> wf_fs (snd e))"

definition abs_path :: "string list \<Rightarrow> string" where
  "abs_path ds = ''/'' @ join_with ''/'' ds"

section \<open>An engine of literal patterns, and example inputs\<close>

text \<open>
  An engine that knows literal patterns only: every other pattern fails to compile, and
  a literal pattern matches where its text occurs.
\<close>

fun first_match :: "string \<Rightarrow> string \<Rightarrow> nat option" where
  "first_match lit [] = (if lit = [] then Some 0 else None)"
| "first_match lit (c # cs) =
     (if prefix lit (c # cs) then Some (length lit) else map_option Suc (first_match lit cs))"

definition literal_engine :: "string regex_engine" where
  "literal_engine =
     \<lparr>compile = literalPattern,
      exec = (\<lambda>lit s i. if i \<le> length s then map_option (\<lambda>e. e + i) (first_match lit (drop i s))
                        else None)\<rparr>"

definition example_dirname :: string where
  "example_dirname = ''/srv/mcp-react-docs/src''"

definition example_fs :: fsnode where
  "example_fs =
     Dir [(''srv'', Dir
       [(''react-base-core'', Dir
          [(''README.md'', File (Some ''core readme'')),
           (''index.ts'', File (Some (''export a('' @ nl @ ''  useForm x''))),
           (''node_modules'', Dir [(''x.ts'', File (Some ''useForm''))]),
           (''form'', Dir
              [(''types.ts'', File (Some ''type F = 1'')),
               (''README.md'', File None),
               (''hooks'', Dir [(''useForm.tsx'', File (Some ''useForm''))])]),
           (''queries'', Dir [(''types.ts'', File None)])]),
        (''react-base-core-private'', Dir [(''key.js'', File (Some ''SECRET''))])])]"

text \<open>
  A file whose one line starts with a byte-order mark and blanks and ends with a tab and
  U+00A0.
\<close>

definition spaced_line :: string where
  "spaced_line =
     [CHR 0xEF, CHR 0xBB, CHR 0xBF] @ ''  useForm x '' @ [CHR 0x09, CHR 0xC2, CHR 0xA0]"

definition spaced_fs :: fsnode where
  "spaced_fs =
     Dir [(''srv'', Dir
       [(''react-base-core'', Dir
          [(''pages'', Dir [(''page.tsx'', File (Some spaced_line))])])])]"

definition example_fetch :: "string \<Rightarrow> string + string response" where
  "example_fetch url =
     (if url = ''https://raw.githubusercontent.com/gaddario98/react-base-form/master/README.md''
      then Inr \<lparr>status = 200, statusText = ''OK'', payload = ''form readme''\<rparr>
      else if url = ''https://raw.githubusercontent.com/gaddario98/react-base-form/master/types.ts''
      then Inr \<lparr>status = 200, statusText = ''OK'', payload = ''type F = 1''\<rparr>
      else if url = ''https://raw.githubusercontent.com/gaddario98/react-base-queries/master/types.ts''
      then Inr \<lparr>status = 500, statusText = ''Internal Server Error'', payload = []\<rparr>
      else Inr \<lparr>status = 404, statusText = ''Not Found'', payload = []\<rparr>)"

definition example_tree :: "string \<Rightarrow> string + tree_item list response" where
  "example_tree url =
     Inr \<lparr>status = 200, statusText = ''OK'',
          payload =
            [\<lparr>item_type = ''tree'', item_path = ''src''\<rparr>,
             \<lparr>item_type = ''blob'', item_path = ''src/index.ts''\<rparr>,
             \<lparr>item_type = ''blob'', item_path = ''dist/index.js''\<rparr>,
             \<lparr>item_type = ''blob'', item_path = ''src/node_modules/a/b.js''\<rparr>,
             \<lparr>item_type = ''blob'', item_path = ''README.md''\<rparr>]\<rparr>"

definition example_search :: "string \<Rightarrow> string + search_data response" where
  "example_search url =
     Inr \<lparr>status = 200, statusText = ''OK'',
          payload =
            \<lparr>total_count = 1,
             items = Some [\<lparr>hit_path = ''src/index.ts'',
                            html_url = ''https://github.com/gaddario98/react-core/blob/master/src/index.ts'',
                            full_name = ''gaddario98/react-core''\<rparr>]\<rparr>\<rparr>"

section \<open>Properties\<close>

subsection \<open>The registry\<close>

lemma registry_ids:
  "map pkg_id (PACKAGES dirname) = [''react-core'', ''react-form'', ''react-queries'', ''react-pages'']"
  by (simp add: PACKAGES_def)

lemma remote_registry_ids:
  "map r_id PACKAGES_remote = [''react-core'', ''react-form'', ''react-queries'', ''react-pages'']"
  by (simp add: PACKAGES_remote_def)

subsection \<open>Listing a missing directory\<close>

text \<open>
  C9. When the directory does not exist, \<open>collectSourceFiles\<close> returns the empty list
  instead of failing; so \<open>get_package_source\<close> without a file path, on a package whose
  directory is missing, returns a success envelope whose listing is empty.
\<close>

theorem missing_directory_lists_nothing:
  "(\<not> existsSync fs d \<longrightarrow> collectSourceFiles fs d = Inr []) \<and>
   (findPackage dirname packageId = Some p \<and> \<not> existsSync fs (dir p) \<and> falsy filePath \<longrightarrow>
      get_package_source fs dirname packageId filePath
        = Inr \<lparr>etext = sourceListing (name p) [], isError = False\<rparr>)"
  by (simp add: collectSourceFiles_def get_package_source_def ok_def)

theorem missing_directory_lists_nothing_witness:
  "\<not> existsSync example_fs ''/srv/react-base-core/pages'' \<and>
   collectSourceFiles example_fs ''/srv/react-base-core/pages'' = Inr [] \<and>
   get_package_source example_fs example_dirname ''react-pages'' None
     = Inr \<lparr>etext = sourceListing ''@gaddario98/react-pages'' [], isError = False\<rparr>"
proof -
  let ?p = "PACKAGES example_dirname ! 3"
  have h1: "\<not> existsSync example_fs ''/srv/react-base-core/pages''"
    by code_simp
  have h2: "findPackage example_dirname ''react-pages'' = Some ?p"
    by code_simp
  have h3: "dir ?p = ''/srv/react-base-core/pages''" "name ?p = ''@gaddario98/react-pages''"
    by code_simp+
  have h4: "falsy None"
    by (simp add: falsy_def)
  from missing_directory_lists_nothing [of example_fs "''/srv/react-base-core/pages''"
      example_dirname "''react-pages''" ?p None] h1 h2 h3 h4
  show ?thesis by simp
qed

subsection \<open>The path-traversal guard\<close>

text \<open>
  C1. The guard of the local \<open>get_package_source\<close> compares strings: the joined path must
  start with the text of the package directory. A sibling directory whose name starts
  with the name of the package directory passes it. With the packages under
  \<open>/srv/react-base-core\<close>, the file path \<open>../react-base-core-private/key.js\<close> resolves to
  \<open>/srv/react-base-core-private/key.js\<close>, outside the root of \<open>react-core\<close>, and the content
  of that file is returned in a success envelope.
\<close>

theorem path_traversal_guard_leak:
  "join [''/srv/react-base-core'', ''../react-base-core-private/key.js'']
     = ''/srv/react-base-core-private/key.js'' \<and>
   relative ''/srv/react-base-core'' ''/srv/react-base-core-private/key.js''
     = ''../react-base-core-private/key.js'' \<and>
   get_package_source example_fs example_dirname ''react-core''
       (Some ''../react-base-core-private/key.js'')
     = Inr \<lparr>etext = ''// @gaddario98/react-core '' @ emdash
                 @ '' ../react-base-core-private/key.js'' @ nl @ nl @ ''SECRET'',
              isError = False\<rparr>"
  by code_simp

subsection \<open>Reading the documentation\<close>

text \<open>
  C6, as the claim states it, fails in the local variant: \<open>readFileSafe\<close> turns a failed
  read into a text, and the handler returns that text in a success envelope. Here the
  README of \<open>react-form\<close> cannot be read and the envelope carries no error flag.
\<close>

theorem docs_unreadable_counterexample:
  "findPackage example_dirname ''react-form'' = Some (PACKAGES example_dirname ! 1) \<and>
   readFileSync example_fs (readmePath (PACKAGES example_dirname ! 1)) = None \<and>
   get_package_docs example_fs example_dirname ''react-form''
     = \<lparr>etext = ''Error: file not found at /srv/react-base-core/form/README.md'',
        isError = False\<rparr>"
  by code_simp

text \<open>
  C6, amended. For a known package whose README can be read, \<open>get_package_docs\<close> returns
  the text of the README unchanged in a success envelope, in both variants. For an unknown
  package it returns an error envelope, in both variants. When the README cannot be
  read, the remote variant returns an error envelope, and the local variant returns a
  success envelope whose text is \<open>Error: file not found at\<close> followed by the path.
\<close>

theorem get_package_docs_envelopes:
  "(findPackage dirname packageId = Some p \<and> readFileSync fs (readmePath p) = Some t \<longrightarrow>
      get_package_docs fs dirname packageId = \<lparr>etext = t, isError = False\<rparr>) \<and>
   (findPackage dirname packageId = None \<longrightarrow> isError (get_package_docs fs dirname packageId)) \<and>
   (findPackage dirname packageId = Some p \<and> readFileSync fs (readmePath p) = None \<longrightarrow>
      get_package_docs fs dirname packageId
        = \<lparr>etext = ''Error: file not found at '' @ readmePath p, isError = False\<rparr>) \<and>
   (findPackage_remote packageId = Some q
      \<and> fetchRawFile fetch (repo q) (branch q) (r_readmePath q) = Inr t \<longrightarrow>
      get_package_docs_remote fetch packageId = \<lparr>etext = t, isError = False\<rparr>) \<and>
   (findPackage_remote packageId = None \<longrightarrow> isError (get_package_docs_remote fetch packageId)) \<and>
   (findPackage_remote packageId = Some q
      \<and> fetchRawFile fetch (repo q) (branch q) (r_readmePath q) = Inl m \<longrightarrow>
      isError (get_package_docs_remote fetch packageId))"
  by (simp add: get_package_docs_def get_package_docs_remote_def readFileSafe_def ok_def err_def)

theorem get_package_docs_envelopes_witness:
  "get_package_docs example_fs example_dirname ''react-core''
     = \<lparr>etext = ''core readme'', isError = False\<rparr> \<and>
   isError (get_package_docs example_fs example_dirname ''nope'') \<and>
   get_package_docs example_fs example_dirname ''react-form''
     = \<lparr>etext = ''Error: file not found at /srv/react-base-core/form/README.md'',
        isError = False\<rparr> \<and>
   get_package_docs_remote example_fetch ''react-form''
     = \<lparr>etext = ''form readme'', isError = False\<rparr> \<and>
   isError (get_package_docs_remote example_fetch ''nope'') \<and>
   isError (get_package_docs_remote example_fetch ''react-core'')"
proof -
  let ?core = "PACKAGES example_dirname ! 0" and ?form = "PACKAGES example_dirname ! 1"
  let ?rcore = "PACKAGES_remote ! 0" and ?rform = "PACKAGES_remote ! 1"
  have a: "findPackage example_dirname ''react-core'' = Some ?core
      \<and> readFileSync example_fs (readmePath ?core) = Some ''core readme''"
    by code_simp
  have b: "findPackage example_dirname ''nope'' = None"
    by code_simp
  have c: "findPackage example_dirname ''react-form'' = Some ?form
      \<and> readFileSync example_fs (readmePath ?form) = None"
    by code_simp
  have c': "readmePath ?form = ''/srv/react-base-core/form/README.md''"
    by code_simp
  have d: "findPackage_remote ''react-form'' = Some ?rform
      \<and> fetchRawFile example_fetch (repo ?rform) (branch ?rform) (r_readmePath ?rform)
          = Inr ''form readme''"
    by code_simp
  have e: "findPackage_remote ''nope'' = None"
    by code_simp
  have f: "findPackage_remote ''react-core'' = Some ?rcore
      \<and> fetchRawFile example_fetch (repo ?rcore) (branch ?rcore) (r_readmePath ?rcore)
          = Inl ''File not found: README.md in gaddario98/react-core''"
    by code_simp
  note docs = get_package_docs_envelopes
  from a docs [where dirname = example_dirname and packageId = "''react-core''" and p = ?core
      and fs = example_fs and t = "''core readme''"]
  have 1: "get_package_docs example_fs example_dirname ''react-core''
     = \<lparr>etext = ''core readme'', isError = False\<rparr>"
    by blast
  from b docs [where dirname = example_dirname and packageId = "''nope''" and fs = example_fs]
  have 2: "isError (get_package_docs example_fs example_dirname ''nope'')"
    by blast
  from c docs [where dirname = example_dirname and packageId = "''react-form''" and p = ?form
      and fs = example_fs]
  have 3: "get_package_docs example_fs example_dirname ''react-form''
     = \<lparr>etext = ''Error: file not found at '' @ readmePath ?form, isError = False\<rparr>"
    by blast
  from d docs [where packageId = "''react-form''" and q = ?rform and fetch = example_fetch
      and t = "''form readme''"]
  have 4: "get_package_docs_remote example_fetch ''react-form''
     = \<lparr>etext = ''form readme'', isError = False\<rparr>"
    by blast
  from e docs [where packageId = "''nope''" and fetch = example_fetch]
  have 5: "isError (get_package_docs_remote example_fetch ''nope'')"
    by blast
  from f docs [where packageId = "''react-core''" and q = ?rcore and fetch = example_fetch]
  have 6: "isError (get_package_docs_remote example_fetch ''react-core'')"
    by blast
  from 1 2 3 4 5 6 c' show ?thesis by simp
qed

subsection \<open>Aggregated types\<close>

lemma join_not_Nil: "join args \<noteq> []"
  by (auto simp: join_def normalize_def Let_def)

lemma registry_types_filter:
  "filter (\<lambda>q. \<not> falsy (typesPath q)) (PACKAGES dirname)
     = filter (\<lambda>q. typesPath q \<noteq> None) (PACKAGES dirname)"
  by (simp add: PACKAGES_def falsy_def join_not_Nil)

text \<open>
  C5. For a package without a types path, \<open>get_package_types\<close> returns a success
  envelope: a header, then one section for each package of the registry that has a types
  path (\<open>react-form\<close>, \<open>react-queries\<close>, \<open>react-pages\<close>, in registry order), separated by
  blank lines. A section is a banner naming the package, followed by the text of its
  types file, or by a marker when the file cannot be had: the local variant writes
  \<open>Error: file not found at\<close> and the path under the banner, the remote variant writes
  \<open>Not Available\<close> in the banner. No failure of a read sets the error flag.
\<close>

theorem aggregated_types_never_fail:
  "(findPackage dirname packageId = Some p \<and> typesPath p = None \<longrightarrow>
      get_package_types fs dirname packageId
        = \<lparr>etext = ''// @gaddario98/react-core aggregated types'' @ nl
              @ ''// The core package re-exports from sub-modules:'' @ nl @ nl
              @ join_with (nl @ nl)
                  (map (subTypes fs dirname)
                     (filter (\<lambda>q. typesPath q \<noteq> None) (PACKAGES dirname))),
           isError = False\<rparr>) \<and>
   (typesPath q = Some tp \<longrightarrow>
      subTypes fs dirname q
        = ''// '' @ bar3 @ '' '' @ name q @ '' types '' @ bar3 @ nl
            @ ''// File: '' @ relative (PACKAGES_ROOT dirname) tp @ nl @ nl
            @ (case readFileSync fs tp of
                 Some c \<Rightarrow> c
               | None \<Rightarrow> ''Error: file not found at '' @ tp)) \<and>
   map pkg_id (filter (\<lambda>q. typesPath q \<noteq> None) (PACKAGES dirname))
     = [''react-form'', ''react-queries'', ''react-pages''] \<and>
   (findPackage_remote packageId = Some p' \<and> r_typesPath p' = None \<longrightarrow>
      get_package_types_remote fetch packageId
        = \<lparr>etext = ''// @gaddario98/react-core aggregated types'' @ nl
              @ ''// The core package re-exports from sub-modules:'' @ nl @ nl
              @ join_with (nl @ nl)
                  (map (subTypes_remote fetch)
                     (filter (\<lambda>q. r_typesPath q \<noteq> None) PACKAGES_remote)),
           isError = False\<rparr>) \<and>
   (r_typesPath q' = Some tp' \<longrightarrow>
      subTypes_remote fetch q'
        = (case fetchRawFile fetch (repo q') (branch q') tp' of
             Inr t \<Rightarrow> ''// '' @ bar3 @ '' '' @ r_name q' @ '' types '' @ bar3 @ nl
                        @ ''// File: '' @ tp' @ nl @ nl @ t
           | Inl m \<Rightarrow> ''// '' @ bar3 @ '' '' @ r_name q' @ '' types: Not Available '' @ bar3)) \<and>
   map r_id (filter (\<lambda>q. r_typesPath q \<noteq> None) PACKAGES_remote)
     = [''react-form'', ''react-queries'', ''react-pages'']"
proof -
  have l1: "map pkg_id (filter (\<lambda>q. typesPath q \<noteq> None) (PACKAGES dirname))
     = [''react-form'', ''react-queries'', ''react-pages'']"
    by (simp add: PACKAGES_def)
  have r1: "map r_id (filter (\<lambda>q. r_typesPath q \<noteq> None) PACKAGES_remote)
     = [''react-form'', ''react-queries'', ''react-pages'']"
    by (simp add: PACKAGES_remote_def)
  have l2: "findPackage dirname packageId = Some p \<and> typesPath p = None \<longrightarrow>
      get_package_types fs dirname packageId
        = \<lparr>etext = ''// @gaddario98/react-core aggregated types'' @ nl
              @ ''// The core package re-exports from sub-modules:'' @ nl @ nl
              @ join_with (nl @ nl)
                  (map (subTypes fs dirname)
                     (filter (\<lambda>q. typesPath q \<noteq> None) (PACKAGES dirname))),
           isError = False\<rparr>"
    unfolding get_package_types_def aggregatedTypes_def registry_types_filter
    by (simp add: falsy_def ok_def)
  have r2: "findPackage_remote packageId = Some p' \<and> r_typesPath p' = None \<longrightarrow>
      get_package_types_remote fetch packageId
        = \<lparr>etext = ''// @gaddario98/react-core aggregated types'' @ nl
              @ ''// The core package re-exports from sub-modules:'' @ nl @ nl
              @ join_with (nl @ nl)
                  (map (subTypes_remote fetch)
                     (filter (\<lambda>q. r_typesPath q \<noteq> None) PACKAGES_remote)),
           isError = False\<rparr>"
    by (simp add: get_package_types_remote_def falsy_def aggregatedTypes_remote_def ok_def)
  have l3: "typesPath q = Some tp \<longrightarrow>
      subTypes fs dirname q
        = ''// '' @ bar3 @ '' '' @ name q @ '' types '' @ bar3 @ nl
            @ ''// File: '' @ relative (PACKAGES_ROOT dirname) tp @ nl @ nl
            @ (case readFileSync fs tp of
                 Some c \<Rightarrow> c
               | None \<Rightarrow> ''Error: file not found at '' @ tp)"
    by (simp add: subTypes_def readFileSafe_def split: option.splits)
  have r3: "r_typesPath q' = Some tp' \<longrightarrow>
      subTypes_remote fetch q'
        = (case fetchRawFile fetch (repo q') (branch q') tp' of
             Inr t \<Rightarrow> ''// '' @ bar3 @ '' '' @ r_name q' @ '' types '' @ bar3 @ nl
                        @ ''// File: '' @ tp' @ nl @ nl @ t
           | Inl m \<Rightarrow> ''// '' @ bar3 @ '' '' @ r_name q' @ '' types: Not Available '' @ bar3)"
    by (simp add: subTypes_remote_def split: sum.splits)
  from l1 l2 l3 r1 r2 r3 show ?thesis by blast
qed

theorem aggregated_types_never_fail_witness:
  "isError (get_package_types example_fs example_dirname ''react-core'') = False \<and>
   subTypes example_fs example_dirname (PACKAGES example_dirname ! 1)
     = ''// '' @ bar3 @ '' @gaddario98/react-form types '' @ bar3 @ nl
         @ ''// File: form/types.ts'' @ nl @ nl @ ''type F = 1'' \<and>
   subTypes example_fs example_dirname (PACKAGES example_dirname ! 2)
     = ''// '' @ bar3 @ '' @gaddario98/react-queries types '' @ bar3 @ nl
         @ ''// File: queries/types.ts'' @ nl @ nl
         @ ''Error: file not found at /srv/react-base-core/queries/types.ts'' \<and>
   isError (get_package_types_remote example_fetch ''react-core'') = False \<and>
   subTypes_remote example_fetch (PACKAGES_remote ! 1)
     = ''// '' @ bar3 @ '' @gaddario98/react-form types '' @ bar3 @ nl
         @ ''// File: types.ts'' @ nl @ nl @ ''type F = 1'' \<and>
   subTypes_remote example_fetch (PACKAGES_remote ! 2)
     = ''// '' @ bar3 @ '' @gaddario98/react-queries types: Not Available '' @ bar3"
proof -
  let ?core = "PACKAGES example_dirname ! 0"
  let ?form = "PACKAGES example_dirname ! 1" and ?queries = "PACKAGES example_dirname ! 2"
  let ?rcore = "PACKAGES_remote ! 0"
  let ?rform = "PACKAGES_remote ! 1" and ?rqueries = "PACKAGES_remote ! 2"
  note agg = aggregated_types_never_fail
  have a: "findPackage example_dirname ''react-core'' = Some ?core \<and> typesPath ?core = None"
    by code_simp
  have b: "typesPath ?form = Some ''/srv/react-base-core/form/types.ts''"
    "readFileSync example_fs ''/srv/react-base-core/form/types.ts'' = Some ''type F = 1''"
    "relative (PACKAGES_ROOT example_dirname) ''/srv/react-base-core/form/types.ts''
       = ''form/types.ts''"
    "name ?form = ''@gaddario98/react-form''"
    by code_simp+
  have c: "typesPath ?queries = Some ''/srv/react-base-core/queries/types.ts''"
    "readFileSync example_fs ''/srv/react-base-core/queries/types.ts'' = None"
    "relative (PACKAGES_ROOT example_dirname) ''/srv/react-base-core/queries/types.ts''
       = ''queries/types.ts''"
    "name ?queries = ''@gaddario98/react-queries''"
    by code_simp+
  have d: "findPackage_remote ''react-core'' = Some ?rcore \<and> r_typesPath ?rcore = None"
    by code_simp
  have e: "r_typesPath ?rform = Some ''types.ts''"
    "fetchRawFile example_fetch (repo ?rform) (branch ?rform) ''types.ts'' = Inr ''type F = 1''"
    "r_name ?rform = ''@gaddario98/react-form''"
    by code_simp+
  have f: "r_typesPath ?rqueries = Some ''types.ts''"
    "fetchRawFile example_fetch (repo ?rqueries) (branch ?rqueries) ''types.ts''
       = Inl ''Failed to fetch file: Internal Server Error''"
    "r_name ?rqueries = ''@gaddario98/react-queries''"
    by code_simp+
  from a agg [where dirname = example_dirname and packageId = "''react-core''" and p = ?core
      and fs = example_fs]
  have 1: "isError (get_package_types example_fs example_dirname ''react-core'') = False"
    by simp
  from b agg [where dirname = example_dirname and fs = example_fs and q = ?form
      and tp = "''/srv/react-base-core/form/types.ts''"]
  have 2: "subTypes example_fs example_dirname ?form
     = ''// '' @ bar3 @ '' @gaddario98/react-form types '' @ bar3 @ nl
         @ ''// File: form/types.ts'' @ nl @ nl @ ''type F = 1''"
    by simp
  from c agg [where dirname = example_dirname and fs = example_fs and q = ?queries
      and tp = "''/srv/react-base-core/queries/types.ts''"]
  have 3: "subTypes example_fs example_dirname ?queries
     = ''// '' @ bar3 @ '' @gaddario98/react-queries types '' @ bar3 @ nl
         @ ''// File: queries/types.ts'' @ nl @ nl
         @ ''Error: file not found at /srv/react-base-core/queries/types.ts''"
    by simp
  from d agg [where packageId = "''react-core''" and p' = ?rcore and fetch = example_fetch]
  have 4: "isError (get_package_types_remote example_fetch ''react-core'') = False"
    by simp
  from e agg [where fetch = example_fetch and q' = ?rform and tp' = "''types.ts''"]
  have 5: "subTypes_remote example_fetch ?rform
     = ''// '' @ bar3 @ '' @gaddario98/react-form types '' @ bar3 @ nl
         @ ''// File: types.ts'' @ nl @ nl @ ''type F = 1''"
    by simp
  from f agg [where fetch = example_fetch and q' = ?rqueries and tp' = "''types.ts''"]
  have 6: "subTypes_remote example_fetch ?rqueries
     = ''// '' @ bar3 @ '' @gaddario98/react-queries types: Not Available '' @ bar3"
    by simp
  from 1 2 3 4 5 6 show ?thesis by blast
qed

subsection \<open>Unknown packages\<close>

text \<open>
  C2, as the claim states it, fails for \<open>search_source\<close>. The word \<open>all\<close> matches no entry
  of the registry, and the local search takes it as the scope of every package; the remote
  search sends any unknown identifier to the search over every repository. Neither
  returns an error envelope.
\<close>

theorem unknown_package_counterexample:
  "findPackage example_dirname ''all'' = None \<and>
   search_source literal_engine example_fs example_dirname ''all'' ''zzz'' 5
     = Inr \<lparr>etext = ''No results found for pattern '' @ dq @ ''zzz'' @ dq @ '' in any package'',
              isError = False\<rparr> \<and>
   findPackage_remote ''nope'' = None \<and>
   isError (search_source_remote (\<lambda>q. q) example_search ''nope'' ''x'') = False"
  by code_simp

text \<open>
  C2, amended. For a package identifier that matches no entry of the registry,
  \<open>get_package_docs\<close>, \<open>get_package_types\<close> and \<open>get_package_source\<close> of both variants, and
  the local \<open>search_source\<close> when the identifier is not \<open>all\<close>, return an envelope with
  the error flag set, whose message names the identifier and lists the identifiers of
  the registry once each, in registry order, separated by commas (the local search adds
  the hint to use \<open>all\<close>).
\<close>

theorem unknown_package_lists_ids:
  "(findPackage dirname packageId = None \<longrightarrow>
      get_package_docs fs dirname packageId
        = \<lparr>etext = ''Package '' @ dq @ packageId @ dq @ '' not found. Available: ''
                   @ join_with '', '' (map pkg_id (PACKAGES dirname)),
           isError = True\<rparr> \<and>
      get_package_types fs dirname packageId
        = \<lparr>etext = ''Package '' @ dq @ packageId @ dq @ '' not found. Available: ''
                   @ join_with '', '' (map pkg_id (PACKAGES dirname)),
           isError = True\<rparr> \<and>
      get_package_source fs dirname packageId filePath
        = Inr \<lparr>etext = ''Package '' @ dq @ packageId @ dq @ '' not found. Available: ''
                       @ join_with '', '' (map pkg_id (PACKAGES dirname)),
               isError = True\<rparr> \<and>
      (packageId \<noteq> ''all'' \<longrightarrow>
         search_source eng fs dirname packageId pattern maxResults
           = Inr \<lparr>etext = ''Package '' @ dq @ packageId @ dq @ '' not found. Available: ''
                          @ join_with '', '' (map pkg_id (PACKAGES dirname))
                          @ '', or use '' @ [CHR 0x27] @ ''all'' @ [CHR 0x27],
                  isError = True\<rparr>)) \<and>
   (findPackage_remote packageId = None \<longrightarrow>
      get_package_docs_remote fetch packageId
        = \<lparr>etext = ''Package '' @ dq @ packageId @ dq @ '' not found. Available: ''
                   @ join_with '', '' (map r_id PACKAGES_remote),
           isError = True\<rparr> \<and>
      get_package_types_remote fetch packageId
        = \<lparr>etext = ''Package '' @ dq @ packageId @ dq @ '' not found. Available: ''
                   @ join_with '', '' (map r_id PACKAGES_remote),
           isError = True\<rparr> \<and>
      get_package_source_remote tree_api fetch token packageId filePath
        = \<lparr>etext = ''Package '' @ dq @ packageId @ dq @ '' not found. Available: ''
                   @ join_with '', '' (map r_id PACKAGES_remote),
           isError = True\<rparr>) \<and>
   map pkg_id (PACKAGES dirname) = [''react-core'', ''react-form'', ''react-queries'', ''react-pages''] \<and>
   map r_id PACKAGES_remote = [''react-core'', ''react-form'', ''react-queries'', ''react-pages''] \<and>
   join_with '', '' [''react-core'', ''react-form'', ''react-queries'', ''react-pages'']
     = ''react-core, react-form, react-queries, react-pages''"
proof -
  have l: "findPackage dirname packageId = None \<Longrightarrow>
      get_package_docs fs dirname packageId = err (notFound dirname packageId) \<and>
      get_package_types fs dirname packageId = err (notFound dirname packageId) \<and>
      get_package_source fs dirname packageId filePath = Inr (err (notFound dirname packageId)) \<and>
      (packageId \<noteq> ''all'' \<longrightarrow>
         search_source eng fs dirname packageId pattern maxResults
           = Inr (err (notFound dirname packageId @ '', or use '' @ [CHR 0x27] @ ''all'' @ [CHR 0x27])))"
    by (simp add: get_package_docs_def get_package_types_def get_package_source_def
        search_source_def packagesToSearch_def)
  have r: "findPackage_remote packageId = None \<Longrightarrow>
      get_package_docs_remote fetch packageId = err (notFound_remote packageId) \<and>
      get_package_types_remote fetch packageId = err (notFound_remote packageId) \<and>
      get_package_source_remote tree_api fetch token packageId filePath
        = err (notFound_remote packageId)"
    by (simp add: get_package_docs_remote_def get_package_types_remote_def
        get_package_source_remote_def)
  have j: "join_with '', '' [''react-core'', ''react-form'', ''react-queries'', ''react-pages'']
     = ''react-core, react-form, react-queries, react-pages''"
    by simp
  from l r j show ?thesis
    unfolding err_def notFound_def notFound_remote_def
    using registry_ids [of dirname] remote_registry_ids by (simp del: append_assoc)
qed

theorem unknown_package_lists_ids_witness:
  "get_package_docs example_fs example_dirname ''nope''
     = \<lparr>etext = ''Package '' @ dq @ ''nope'' @ dq
                @ '' not found. Available: react-core, react-form, react-queries, react-pages'',
        isError = True\<rparr> \<and>
   search_source literal_engine example_fs example_dirname ''nope'' ''x'' 20
     = Inr \<lparr>etext = ''Package '' @ dq @ ''nope'' @ dq
                @ '' not found. Available: react-core, react-form, react-queries, react-pages''
                @ '', or use '' @ [CHR 0x27] @ ''all'' @ [CHR 0x27],
              isError = True\<rparr> \<and>
   get_package_source_remote example_tree example_fetch None ''nope'' None
     = \<lparr>etext = ''Package '' @ dq @ ''nope'' @ dq
                @ '' not found. Available: react-core, react-form, react-queries, react-pages'',
        isError = True\<rparr>"
proof -
  have a: "findPackage example_dirname ''nope'' = None" "findPackage_remote ''nope'' = None"
    by code_simp+
  have b: "''nope'' \<noteq> ''all''"
    by simp
  from a b unknown_package_lists_ids [where dirname = example_dirname and packageId = "''nope''"
      and fs = example_fs and eng = literal_engine and pattern = "''x''" and maxResults = 20
      and tree_api = example_tree and fetch = example_fetch and token = None and filePath = None]
  show ?thesis by simp
qed

subsection \<open>The loops of the search\<close>

text \<open>
  The loops compare a number of results with the cap; the comparison with a rational cap
  is the comparison with its ceiling.
\<close>

lemma at_cap: "(m::rat) \<le> of_nat n \<longleftrightarrow> \<lceil>m\<rceil> \<le> int n"
proof -
  have "(of_nat n :: rat) = of_int (int n)" by simp
  then show ?thesis by (simp only: ceiling_le_iff)
qed

lemma cap_diff: "\<lceil>(m::rat) - of_nat n\<rceil> = \<lceil>m\<rceil> - int n"
proof -
  have "(of_nat n :: rat) = of_int (int n)" by simp
  then show ?thesis by (simp only: ceiling_diff_of_int)
qed

lemma regex_test_zero:
  "regex_test eng r 0 l = (exec eng r l 0 \<noteq> None, case exec eng r l 0 of None \<Rightarrow> 0 | Some e \<Rightarrow> e)"
  by (simp add: regex_test_def split: option.splits)

lemma scanLines_bound:
  "int (length (fst (scanLines eng r m f ls i (rs, li)))) \<le> max (int (length rs)) \<lceil>m\<rceil>"
proof (induction ls arbitrary: i rs li)
  case Nil
  show ?case by simp
next
  case (Cons l ls)
  show ?case
  proof (cases "\<lceil>m\<rceil> \<le> int (length rs)")
    case True
    then show ?thesis by (simp add: at_cap)
  next
    case False
    obtain b e where t: "regex_test eng r li l = (b, e)"
      by (cases "regex_test eng r li l")
    show ?thesis
    proof (cases b)
      case True
      with False t Cons.IH [of "i + 1" "rs @ [\<lparr>mfile = f, mline = i + 1, mcontent = trim l\<rparr>]" 0]
      show ?thesis by (simp add: at_cap)
    next
      case nomatch: False
      with False t Cons.IH [of "i + 1" rs e] show ?thesis by (simp add: at_cap)
    qed
  qed
qed

lemma scanLines_spec:
  "scanLines eng r m f ls i (rs, 0)
     = (rs @ take (nat (\<lceil>m\<rceil> - int (length rs))) (matchingLines eng r f ls i), 0)"
proof (induction ls arbitrary: i rs)
  case Nil
  show ?case by simp
next
  case (Cons l ls)
  show ?case
  proof (cases "\<lceil>m\<rceil> \<le> int (length rs)")
    case True
    then show ?thesis by (simp add: at_cap)
  next
    case False
    then have n: "nat (\<lceil>m\<rceil> - int (length rs)) = Suc (nat (\<lceil>m\<rceil> - int (length rs) - 1))"
      by simp
    show ?thesis
    proof (cases "exec eng r l 0")
      case None
      with False Cons.IH [of "i + 1" rs] show ?thesis
        by (simp add: regex_test_def at_cap)
    next
      case (Some e)
      have "nat (\<lceil>m\<rceil> - int (length (rs @ [\<lparr>mfile = f, mline = i + 1, mcontent = trim l\<rparr>])))
          = nat (\<lceil>m\<rceil> - int (length rs) - 1)"
        by simp
      with False Some n
        Cons.IH [of "i + 1" "rs @ [\<lparr>mfile = f, mline = i + 1, mcontent = trim l\<rparr>]"]
      show ?thesis
        by (simp add: regex_test_def at_cap)
    qed
  qed
qed

lemma take_budget:
  "take (nat (k - int (length rs))) (A @ B)
     = take (nat (k - int (length rs))) A
       @ take (nat (k - int (length (rs @ take (nat (k - int (length rs))) A)))) B"
proof (cases "length A \<le> nat (k - int (length rs))")
  case True
  then have "nat (k - int (length rs)) - length A = nat (k - int (length rs) - int (length A))"
    by linarith
  with True show ?thesis by (simp add: min_def algebra_simps)
next
  case False
  then show ?thesis by (simp add: min_def)
qed

lemma scanFiles_stop:
  "of_nat (length rs) \<ge> m \<Longrightarrow> scanFiles eng r m fs d files (rs, li, tr) = (rs, li, tr)"
  by (cases files) simp_all

lemma scanFiles_bound:
  "int (length (fst (scanFiles eng r m fs d files (rs, li, tr)))) \<le> max (int (length rs)) \<lceil>m\<rceil>"
proof (induction files arbitrary: rs li tr)
  case Nil
  show ?case by simp
next
  case (Cons f files)
  show ?case
  proof (cases "\<lceil>m\<rceil> \<le> int (length rs)")
    case True
    then show ?thesis by (simp add: at_cap)
  next
    case False
    show ?thesis
    proof (cases "readFileSync fs (join [d, f])")
      case None
      with False Cons.IH [of rs li "tr @ [ReadFile (join [d, f])]"] show ?thesis
        by (simp add: at_cap)
    next
      case (Some content)
      obtain rs' li' where s: "scanLines eng r m f (split_on CHR 0x0A content) 0 (rs, li) = (rs', li')"
        by (cases "scanLines eng r m f (split_on CHR 0x0A content) 0 (rs, li)")
      from scanLines_bound [of eng r m f "split_on CHR 0x0A content" 0 rs li] s
      have "int (length rs') \<le> max (int (length rs)) \<lceil>m\<rceil>" by simp
      with False have "max (int (length rs')) \<lceil>m\<rceil> \<le> max (int (length rs)) \<lceil>m\<rceil>" by simp
      with False Some s Cons.IH [of rs' li' "tr @ [ReadFile (join [d, f])]"] show ?thesis
        by (simp add: at_cap)
    qed
  qed
qed

lemma scanFiles_spec:
  "fst (scanFiles eng r m fs d files (rs, 0, tr))
     = rs @ take (nat (\<lceil>m\<rceil> - int (length rs))) (concat (map (fileMatches eng r fs d) files))"
proof (induction files arbitrary: rs tr)
  case Nil
  show ?case by simp
next
  case (Cons f files)
  show ?case
  proof (cases "\<lceil>m\<rceil> \<le> int (length rs)")
    case True
    then show ?thesis by (simp add: at_cap)
  next
    case False
    show ?thesis
    proof (cases "readFileSync fs (join [d, f])")
      case None
      with False Cons.IH [of rs "tr @ [ReadFile (join [d, f])]"] show ?thesis
        by (simp add: fileMatches_def at_cap)
    next
      case (Some content)
      let ?A = "matchingLines eng r f (split_on CHR 0x0A content) 0"
      let ?rs' = "rs @ take (nat (\<lceil>m\<rceil> - int (length rs))) ?A"
      have A: "fileMatches eng r fs d f = ?A"
        by (simp add: fileMatches_def Some)
      have "fst (scanFiles eng r m fs d (f # files) (rs, 0, tr))
          = fst (scanFiles eng r m fs d files (?rs', 0, tr @ [ReadFile (join [d, f])]))"
        using False Some by (simp add: scanLines_spec at_cap)
      also have "\<dots> = ?rs' @ take (nat (\<lceil>m\<rceil> - int (length ?rs')))
                          (concat (map (fileMatches eng r fs d) files))"
        by (rule Cons.IH)
      also have "\<dots> = rs @ take (nat (\<lceil>m\<rceil> - int (length rs)))
                          (?A @ concat (map (fileMatches eng r fs d) files))"
        using take_budget [of "\<lceil>m\<rceil>" rs ?A "concat (map (fileMatches eng r fs d) files)"] by simp
      finally show ?thesis by (simp add: A)
    qed
  qed
qed

lemma scanFiles_append:
  "scanFiles eng r m fs d (pre @ post) st
     = scanFiles eng r m fs d post (scanFiles eng r m fs d pre st)"
proof (induction pre arbitrary: st)
  case Nil
  show ?case by (cases st) simp
next
  case (Cons f pre)
  obtain rs li tr where st: "st = (rs, li, tr)" by (cases st)
  show ?case
  proof (cases "of_nat (length rs) \<ge> m")
    case True
    then show ?thesis by (simp add: st scanFiles_stop)
  next
    case False
    then show ?thesis
      by (simp add: st Cons.IH Let_def split: option.splits prod.splits)
  qed
qed

lemma scanFiles_prefix_stop:
  "of_nat (length (fst (scanFiles eng r m fs d pre st))) \<ge> m \<Longrightarrow>
   scanFiles eng r m fs d (pre @ post) st = scanFiles eng r m fs d pre st"
proof -
  assume a: "of_nat (length (fst (scanFiles eng r m fs d pre st))) \<ge> m"
  obtain rs li tr where s: "scanFiles eng r m fs d pre st = (rs, li, tr)"
    by (cases "scanFiles eng r m fs d pre st")
  with a show ?thesis by (simp add: scanFiles_append scanFiles_stop)
qed

lemma searchInPackage_Inr:
  "searchInPackage eng fs p pattern m tr = Inr (rs, tr') \<Longrightarrow>
   \<exists>files r li. collectSourceFiles fs (dir p) = Inr files \<and> compileOrEscape eng pattern = Inr r
      \<and> scanFiles eng r m fs (dir p) files ([], 0, tr @ [ListDir (dir p)]) = (rs, li, tr')"
  by (auto simp: searchInPackage_def split: sum.splits prod.splits)

lemma searchInPackage_bound:
  "searchInPackage eng fs p pattern m tr = Inr (rs, tr') \<Longrightarrow> int (length rs) \<le> max 0 \<lceil>m\<rceil>"
proof -
  assume "searchInPackage eng fs p pattern m tr = Inr (rs, tr')"
  from searchInPackage_Inr [OF this] obtain files r li where
    "scanFiles eng r m fs (dir p) files ([], 0, tr @ [ListDir (dir p)]) = (rs, li, tr')"
    by blast
  with scanFiles_bound [of eng r m fs "dir p" files "[]" 0 "tr @ [ListDir (dir p)]"]
  show ?thesis by simp
qed

lemma searchInPackage_spec:
  "compileOrEscape eng pattern = Inr r \<Longrightarrow> searchInPackage eng fs p pattern m tr = Inr (rs, tr') \<Longrightarrow>
   rs = take (nat \<lceil>m\<rceil>) (concat (map (fileMatches eng r fs (dir p)) (filesOf fs (dir p))))"
proof -
  assume c: "compileOrEscape eng pattern = Inr r"
    and a: "searchInPackage eng fs p pattern m tr = Inr (rs, tr')"
  from searchInPackage_Inr [OF a] c obtain files li where
    f: "collectSourceFiles fs (dir p) = Inr files" and
    s: "scanFiles eng r m fs (dir p) files ([], 0, tr @ [ListDir (dir p)]) = (rs, li, tr')"
    by auto
  from scanFiles_spec [of eng r m fs "dir p" files "[]" "tr @ [ListDir (dir p)]"] s f
  show ?thesis
    by (simp add: filesOf_def)
qed

lemma searchLoop_bound:
  "searchLoop eng fs pattern m pkgs (acc, tr) = Inr (acc', tr') \<Longrightarrow>
   int (length acc') \<le> max (int (length acc)) \<lceil>m\<rceil>"
proof (induction pkgs arbitrary: acc tr)
  case Nil
  then show ?case by simp
next
  case (Cons p pkgs)
  from Cons.prems obtain rs tr1 where
    s: "searchInPackage eng fs p pattern (m - of_nat (length acc)) tr = Inr (rs, tr1)"
    by (auto split: sum.splits)
  let ?acc1 = "acc @ map (\<lambda>r. (pkg_id p, r)) rs"
  from searchInPackage_bound [OF s] have b: "int (length ?acc1) \<le> max (int (length acc)) \<lceil>m\<rceil>"
    by (simp add: cap_diff)
  show ?case
  proof (cases "of_nat (length ?acc1) \<ge> m")
    case True
    with Cons.prems s have "acc' = ?acc1" by (simp add: Let_def)
    with b show ?thesis by simp
  next
    case False
    with Cons.prems s have "searchLoop eng fs pattern m pkgs (?acc1, tr1) = Inr (acc', tr')"
      by (simp add: Let_def)
    from Cons.IH [OF this] b show ?thesis by simp
  qed
qed

lemma searchLoop_spec:
  "compileOrEscape eng pattern = Inr r \<Longrightarrow>
   searchLoop eng fs pattern m pkgs (acc, tr) = Inr (acc', tr') \<Longrightarrow>
   acc' = acc @ take (nat (\<lceil>m\<rceil> - int (length acc))) (concat (map (packageMatches eng r fs) pkgs))"
proof (induction pkgs arbitrary: acc tr)
  case Nil
  then show ?case by simp
next
  case (Cons p pkgs)
  from Cons.prems(2) obtain rs tr1 where
    s: "searchInPackage eng fs p pattern (m - of_nat (length acc)) tr = Inr (rs, tr1)"
    by (auto split: sum.splits)
  let ?n = "nat (\<lceil>m\<rceil> - int (length acc))"
  let ?A = "packageMatches eng r fs p"
  let ?B = "concat (map (packageMatches eng r fs) pkgs)"
  let ?acc1 = "acc @ take ?n ?A"
  from searchInPackage_spec [OF Cons.prems(1) s]
  have rs: "acc @ map (\<lambda>r. (pkg_id p, r)) rs = ?acc1"
    by (simp add: packageMatches_def take_map cap_diff)
  show ?case
  proof (cases "of_nat (length ?acc1) \<ge> m")
    case True
    then have "take (nat (\<lceil>m\<rceil> - int (length ?acc1))) ?B = []"
      by (simp only: at_cap) simp
    moreover from True have "of_nat (length (acc @ map (\<lambda>r. (pkg_id p, r)) rs)) \<ge> m"
      unfolding rs .
    with Cons.prems(2) s have "acc' = acc @ map (\<lambda>r. (pkg_id p, r)) rs"
      by (simp add: Let_def)
    then have "acc' = ?acc1" unfolding rs .
    ultimately show ?thesis
      using take_budget [of "\<lceil>m\<rceil>" acc ?A ?B] by simp
  next
    case False
    then have "\<not> of_nat (length (acc @ map (\<lambda>r. (pkg_id p, r)) rs)) \<ge> m"
      unfolding rs .
    with Cons.prems(2) s
    have "searchLoop eng fs pattern m pkgs (acc @ map (\<lambda>r. (pkg_id p, r)) rs, tr1) = Inr (acc', tr')"
      by (simp add: Let_def)
    then have "searchLoop eng fs pattern m pkgs (?acc1, tr1) = Inr (acc', tr')"
      unfolding rs .
    from Cons.IH [OF Cons.prems(1) this] show ?thesis
      using take_budget [of "\<lceil>m\<rceil>" acc ?A ?B] by simp
  qed
qed

lemma searchLoop_prefix_stop:
  "pre \<noteq> [] \<Longrightarrow> searchLoop eng fs pattern m pre st = Inr st' \<Longrightarrow>
   of_nat (length (fst st')) \<ge> m \<Longrightarrow>
   searchLoop eng fs pattern m (pre @ post) st = Inr st'"
proof (induction pre arbitrary: st)
  case Nil
  then show ?case by simp
next
  case (Cons p pre)
  obtain acc tr where st: "st = (acc, tr)" by (cases st)
  from Cons.prems(2) st obtain rs tr1 where
    s: "searchInPackage eng fs p pattern (m - of_nat (length acc)) tr = Inr (rs, tr1)"
    by (auto split: sum.splits)
  let ?acc1 = "acc @ map (\<lambda>r. (pkg_id p, r)) rs"
  show ?case
  proof (cases "of_nat (length ?acc1) \<ge> m")
    case True
    with Cons.prems(2) s st show ?thesis by (simp add: Let_def)
  next
    case False
    with Cons.prems(2) s st have run: "searchLoop eng fs pattern m pre (?acc1, tr1) = Inr st'"
      by (simp add: Let_def)
    show ?thesis
    proof (cases "pre = []")
      case True
      with run False Cons.prems(3) show ?thesis by auto
    next
      case nonempty: False
      from Cons.IH [OF nonempty run Cons.prems(3)] False s st show ?thesis
        by (simp add: Let_def)
    qed
  qed
qed

lemma searchLoop_zero:
  "m \<le> 0 \<Longrightarrow> searchLoop eng fs pattern m pkgs ([], []) = Inr (rs, tr) \<Longrightarrow>
   rs = [] \<and> (\<forall>path. ReadFile path \<notin> set tr)"
proof (cases pkgs)
  case Nil
  assume "searchLoop eng fs pattern m pkgs ([], []) = Inr (rs, tr)"
  with Nil show ?thesis by simp
next
  case (Cons p rest)
  assume m: "m \<le> 0" and run: "searchLoop eng fs pattern m pkgs ([], []) = Inr (rs, tr)"
  from run Cons obtain rs1 tr1 where s: "searchInPackage eng fs p pattern m [] = Inr (rs1, tr1)"
    by (auto split: sum.splits)
  from searchInPackage_Inr [OF s] obtain files r li where
    "scanFiles eng r m fs (dir p) files ([], 0, [] @ [ListDir (dir p)]) = (rs1, li, tr1)"
    by blast
  with m have "rs1 = []" "tr1 = [ListDir (dir p)]"
    by (simp_all add: scanFiles_stop)
  with m run Cons s show ?thesis by auto
qed

lemma matchingLines_set:
  "x \<in> set (matchingLines eng r f ls i) \<longleftrightarrow>
   (\<exists>k < length ls. exec eng r (ls ! k) 0 \<noteq> None
      \<and> x = \<lparr>mfile = f, mline = i + k + 1, mcontent = trim (ls ! k)\<rparr>)"
proof (induction ls arbitrary: i)
  case Nil
  show ?case by simp
next
  case (Cons l ls)
  have "(\<exists>k < length (l # ls). exec eng r ((l # ls) ! k) 0 \<noteq> None
           \<and> x = \<lparr>mfile = f, mline = i + k + 1, mcontent = trim ((l # ls) ! k)\<rparr>)
      \<longleftrightarrow> (exec eng r l 0 \<noteq> None \<and> x = \<lparr>mfile = f, mline = i + 1, mcontent = trim l\<rparr>)
        \<or> (\<exists>k < length ls. exec eng r (ls ! k) 0 \<noteq> None
              \<and> x = \<lparr>mfile = f, mline = (i + 1) + k + 1, mcontent = trim (ls ! k)\<rparr>)"
    (is "?L \<longleftrightarrow> ?A \<or> ?B")
  proof
    assume ?L
    then obtain k where k: "k < length (l # ls)" "exec eng r ((l # ls) ! k) 0 \<noteq> None"
      "x = \<lparr>mfile = f, mline = i + k + 1, mcontent = trim ((l # ls) ! k)\<rparr>"
      by blast
    show "?A \<or> ?B"
    proof (cases k)
      case 0
      with k show ?thesis by simp
    next
      case (Suc j)
      with k have "j < length ls \<and> exec eng r (ls ! j) 0 \<noteq> None
          \<and> x = \<lparr>mfile = f, mline = (i + 1) + j + 1, mcontent = trim (ls ! j)\<rparr>"
        by simp
      then show ?thesis by blast
    qed
  next
    assume "?A \<or> ?B"
    then show ?L
    proof
      assume ?A
      then have "0 < length (l # ls) \<and> exec eng r ((l # ls) ! 0) 0 \<noteq> None
          \<and> x = \<lparr>mfile = f, mline = i + 0 + 1, mcontent = trim ((l # ls) ! 0)\<rparr>"
        by simp
      then show ?L by blast
    next
      assume ?B
      then obtain j where "j < length ls" "exec eng r (ls ! j) 0 \<noteq> None"
        "x = \<lparr>mfile = f, mline = (i + 1) + j + 1, mcontent = trim (ls ! j)\<rparr>"
        by blast
      then have "Suc j < length (l # ls) \<and> exec eng r ((l # ls) ! Suc j) 0 \<noteq> None
          \<and> x = \<lparr>mfile = f, mline = i + Suc j + 1, mcontent = trim ((l # ls) ! Suc j)\<rparr>"
        by simp
      then show ?L by blast
    qed
  qed
  with Cons.IH [of "i + 1"] show ?case by auto
qed

lemma matchingLines_sorted:
  "sorted_wrt (<) (map mline (matchingLines eng r f ls i))"
proof (induction ls arbitrary: i)
  case Nil
  show ?case by simp
next
  case (Cons l ls)
  have "\<forall>x \<in> set (matchingLines eng r f ls (i + 1)). i + 1 < mline x"
    by (auto simp: matchingLines_set)
  with Cons.IH [of "i + 1"] show ?case
    by (simp add: sorted_wrt_append)
qed

subsection \<open>Trimming\<close>

lemma spaceAt_prefix:
  "spaceAt ws s \<noteq> 0 \<Longrightarrow> \<exists>w \<in> set ws. w \<noteq> [] \<and> prefix w s \<and> spaceAt ws s = length w"
  by (auto simp: spaceAt_def find_Some_iff split: option.splits)

lemma spaceAt_zero: "spaceAt ws s = 0 \<longleftrightarrow> (\<forall>w \<in> set ws. w \<noteq> [] \<longrightarrow> \<not> prefix w s)"
proof
  assume z: "spaceAt ws s = 0"
  show "\<forall>w \<in> set ws. w \<noteq> [] \<longrightarrow> \<not> prefix w s"
  proof (cases "find (\<lambda>w. w \<noteq> [] \<and> prefix w s) ws")
    case None
    then show ?thesis by (auto simp: find_None_iff)
  next
    case (Some w)
    then have "w \<noteq> []" by (auto simp: find_Some_iff)
    with z Some show ?thesis by (simp add: spaceAt_def)
  qed
next
  assume "\<forall>w \<in> set ws. w \<noteq> [] \<longrightarrow> \<not> prefix w s"
  then have "find (\<lambda>w. w \<noteq> [] \<and> prefix w s) ws = None"
    by (auto simp: find_None_iff)
  then show "spaceAt ws s = 0" by (simp add: spaceAt_def)
qed

lemma stripStart_spaceAt: "spaceAt ws (stripStart ws s) = 0"
proof (induction ws s rule: stripStart.induct)
  case (1 ws s)
  show ?case
  proof (cases "spaceAt ws s = 0")
    case True
    then show ?thesis by (simp add: stripStart.simps [of ws s])
  next
    case False
    with "1.IH" show ?thesis by (simp add: stripStart.simps [of ws s])
  qed
qed

lemma stripStart_decomp:
  "\<exists>us. set us \<subseteq> set ws \<and> s = concat us @ stripStart ws s"
proof (induction ws s rule: stripStart.induct)
  case (1 ws s)
  show ?case
  proof (cases "spaceAt ws s = 0")
    case True
    then have "set [] \<subseteq> set ws \<and> s = concat [] @ stripStart ws s"
      by (simp add: stripStart.simps [of ws s])
    then show ?thesis by blast
  next
    case False
    from spaceAt_prefix [OF False] obtain w where w: "w \<in> set ws" "prefix w s"
      "spaceAt ws s = length w"
      by blast
    from "1.IH" [OF False] obtain us where us: "set us \<subseteq> set ws"
      "drop (spaceAt ws s) s = concat us @ stripStart ws (drop (spaceAt ws s) s)"
      by blast
    from w(2) have "s = w @ drop (length w) s"
      by (auto simp: prefix_def)
    with us(2) w(3) False have "s = concat (w # us) @ stripStart ws s"
      by (simp add: stripStart.simps [of ws s])
    moreover from w(1) us(1) have "set (w # us) \<subseteq> set ws" by simp
    ultimately show ?thesis by blast
  qed
qed

lemma trim_decomp:
  "\<exists>us vs. set us \<subseteq> set WHITESPACE \<and> set vs \<subseteq> set WHITESPACE
     \<and> s = concat us @ trim s @ concat vs"
proof -
  let ?t = "trimStart s"
  from stripStart_decomp [of WHITESPACE s] obtain us where
    us: "set us \<subseteq> set WHITESPACE" "s = concat us @ ?t"
    by (auto simp: trimStart_def)
  from stripStart_decomp [of "map rev WHITESPACE" "rev ?t"] obtain rs where
    rs: "set rs \<subseteq> set (map rev WHITESPACE)"
      "rev ?t = concat rs @ stripStart (map rev WHITESPACE) (rev ?t)"
    by blast
  from rs(2) have "rev (rev ?t) = rev (concat rs @ stripStart (map rev WHITESPACE) (rev ?t))"
    by (rule arg_cong)
  then have t: "?t = trim s @ concat (map rev (rev rs))"
    by (simp add: trim_def trimEnd_def rev_concat)
  from rs(1) have "set (map rev (rev rs)) \<subseteq> set WHITESPACE"
    by auto
  with us t show ?thesis by (metis append_assoc)
qed

lemma trim_ends:
  "spaceAt WHITESPACE (trim s) = 0 \<and> spaceAt (map rev WHITESPACE) (rev (trim s)) = 0"
proof
  let ?t = "trimStart s"
  have t0: "spaceAt WHITESPACE ?t = 0"
    by (simp add: trimStart_def stripStart_spaceAt)
  from stripStart_decomp [of "map rev WHITESPACE" "rev ?t"] obtain rs where
    "rev ?t = concat rs @ stripStart (map rev WHITESPACE) (rev ?t)"
    by blast
  then have "rev (rev ?t) = rev (concat rs @ stripStart (map rev WHITESPACE) (rev ?t))"
    by (rule arg_cong)
  then have "?t = trim s @ rev (concat rs)"
    by (simp add: trim_def trimEnd_def)
  then have pre: "prefix (trim s) ?t"
    by (metis prefixI)
  show "spaceAt WHITESPACE (trim s) = 0"
    unfolding spaceAt_zero
  proof (intro ballI impI notI)
    fix w assume "w \<in> set WHITESPACE" "w \<noteq> []" "prefix w (trim s)"
    with pre have "w \<in> set WHITESPACE \<and> w \<noteq> [] \<and> prefix w ?t"
      by (auto intro: prefix_order.trans)
    with t0 show False by (auto simp: spaceAt_zero)
  qed
  show "spaceAt (map rev WHITESPACE) (rev (trim s)) = 0"
    by (simp add: trim_def trimEnd_def stripStart_spaceAt)
qed

subsection \<open>Escaped patterns\<close>

lemma metachars_are_syntax: "set METACHARS = set SYNTAX_CHARACTERS"
  by code_simp

lemma literalPattern_escape: "literalPattern (escapeRegExp p) = Some p"
proof (induction p)
  case Nil
  show ?case by (simp add: escapeRegExp_def)
next
  case (Cons c cs)
  have step: "escapeRegExp (c # cs)
      = (if c \<in> set METACHARS then [CHR 0x5C, c] else [c]) @ escapeRegExp cs"
    by (simp add: escapeRegExp_def)
  have bs: "CHR 0x5C \<in> set SYNTAX_CHARACTERS"
    by (simp add: SYNTAX_CHARACTERS_def)
  show ?case
  proof (cases "c \<in> set METACHARS")
    case True
    then have "c \<in> set SYNTAX_CHARACTERS" using metachars_are_syntax by blast
    with True step Cons.IH show ?thesis by simp
  next
    case False
    then have syn: "c \<notin> set SYNTAX_CHARACTERS" using metachars_are_syntax by blast
    with bs have "c \<noteq> CHR 0x5C" by blast
    with False syn step Cons.IH show ?thesis by simp
  qed
qed

lemma first_match_sublist: "sublist lit s \<Longrightarrow> first_match lit s \<noteq> None"
proof (induction s)
  case Nil
  then show ?case by simp
next
  case (Cons c cs)
  then show ?case by (auto simp: sublist_Cons_right)
qed

lemma literal_engine_literals: "matches_literals literal_engine"
  unfolding matches_literals_def
proof (intro allI impI)
  fix q lit
  assume "literalPattern q = Some lit"
  then have "compile literal_engine q = Some lit"
    by (simp add: literal_engine_def)
  moreover have "\<forall>s. sublist lit s \<longrightarrow> exec literal_engine lit s 0 \<noteq> None"
    using first_match_sublist by (auto simp: literal_engine_def)
  ultimately show "\<exists>r. compile literal_engine q = Some r
      \<and> (\<forall>s. sublist lit s \<longrightarrow> exec literal_engine r s 0 \<noteq> None)"
    by blast
qed

lemma searchLoop_Inl:
  "searchLoop eng fs pattern m pkgs st = Inl e \<Longrightarrow>
   \<exists>p m' tr. searchInPackage eng fs p pattern m' tr = Inl e"
proof (induction pkgs arbitrary: st)
  case Nil
  then show ?case by (cases st) simp
next
  case (Cons p pkgs)
  obtain acc tr where st: "st = (acc, tr)" by (cases st)
  show ?case
  proof (cases "searchInPackage eng fs p pattern (m - of_nat (length acc)) tr")
    case (Inl e')
    with Cons.prems st have "e' = e" by simp
    with Inl show ?thesis by blast
  next
    case (Inr res)
    obtain rs tr1 where res: "res = (rs, tr1)" by (cases res)
    let ?acc1 = "acc @ map (\<lambda>r. (pkg_id p, r)) rs"
    from Cons.prems st Inr res
    have "searchLoop eng fs pattern m pkgs (?acc1, tr1) = Inl e"
      by (simp add: Let_def split: if_splits)
    from Cons.IH [OF this] show ?thesis .
  qed
qed

lemma searchAll_single:
  "findPackage dirname packageId = Some p \<Longrightarrow> packageId \<noteq> ''all'' \<Longrightarrow>
   searchInPackage eng fs p pattern m [] = Inr (rs, tr) \<Longrightarrow>
   searchAll eng fs dirname packageId pattern m = Inr (map (\<lambda>r. (pkg_id p, r)) rs, tr)"
  by (simp add: searchAll_def packagesToSearch_def Let_def)

subsection \<open>The cap on the number of matches\<close>

text \<open>
  C3, as the claim states it, fails: the cap is any number the schema lets through, and the
  loops stop when the number of matches is at least the cap. With a cap of 2.5 the search
  goes on after two matches and returns three.
\<close>

theorem search_cap_fraction_counterexample:
  "searchAll literal_engine example_fs example_dirname ''all'' ''useForm'' (5 / 2)
     = Inr ([(''react-core'', \<lparr>mfile = ''index.ts'', mline = 2, mcontent = ''useForm x''\<rparr>),
             (''react-core'',
              \<lparr>mfile = ''form/hooks/useForm.tsx'', mline = 1, mcontent = ''useForm''\<rparr>),
             (''react-form'', \<lparr>mfile = ''hooks/useForm.tsx'', mline = 1, mcontent = ''useForm''\<rparr>)],
            [ListDir ''/srv/react-base-core'', ReadFile ''/srv/react-base-core/index.ts'',
             ReadFile ''/srv/react-base-core/form/types.ts'',
             ReadFile ''/srv/react-base-core/form/hooks/useForm.tsx'',
             ReadFile ''/srv/react-base-core/queries/types.ts'',
             ListDir ''/srv/react-base-core/form'',
             ReadFile ''/srv/react-base-core/form/types.ts'',
             ReadFile ''/srv/react-base-core/form/hooks/useForm.tsx'']) \<and>
   (5 / 2 :: rat)
     < of_nat (length
         [(''react-core'', \<lparr>mfile = ''index.ts'', mline = 2, mcontent = ''useForm x''\<rparr>),
          (''react-core'',
           \<lparr>mfile = ''form/hooks/useForm.tsx'', mline = 1, mcontent = ''useForm''\<rparr>),
          (''react-form'', \<lparr>mfile = ''hooks/useForm.tsx'', mline = 1, mcontent = ''useForm''\<rparr>)])"
  by code_simp

text \<open>
  C3, amended. When \<open>maxResults\<close> is an integer, the search returns at most \<open>maxResults\<close>
  matches over all the packages of its scope, and none when \<open>maxResults\<close> is zero or less
  (then no file is read). Once the cap is reached nothing more is scanned: when the
  matches reach the cap after some files of a package, the run over any longer list of
  files ends in the same state, trace of reads included; and when they reach it after
  some packages, the run over any longer list of packages ends in the same state.
\<close>

theorem search_result_cap:
  "(searchAll eng fs dirname packageId pattern (of_int k) = Inr (rs, tr) \<longrightarrow>
      int (length rs) \<le> max 0 k \<and>
      (k \<le> 0 \<longrightarrow> rs = [] \<and> (\<forall>path. ReadFile path \<notin> set tr))) \<and>
   (k \<le> int (length (fst (scanFiles eng r (of_int k) fs d pre st))) \<longrightarrow>
      scanFiles eng r (of_int k) fs d (pre @ post) st = scanFiles eng r (of_int k) fs d pre st) \<and>
   (pkgs \<noteq> [] \<and> searchLoop eng fs pattern (of_int k) pkgs st' = Inr st''
      \<and> k \<le> int (length (fst st'')) \<longrightarrow>
      searchLoop eng fs pattern (of_int k) (pkgs @ later) st' = Inr st'')"
proof -
  have cap: "(of_int k :: rat) \<le> of_nat n \<longleftrightarrow> k \<le> int n" for n
    by (simp add: at_cap)
  have a: "searchAll eng fs dirname packageId pattern (of_int k) = Inr (rs, tr) \<longrightarrow>
      int (length rs) \<le> max 0 k \<and>
      (k \<le> 0 \<longrightarrow> rs = [] \<and> (\<forall>path. ReadFile path \<notin> set tr))"
    unfolding searchAll_def
    using searchLoop_bound [of eng fs pattern "of_int k" "packagesToSearch dirname packageId"
        "[]" "[]" rs tr]
      searchLoop_zero [of "of_int k" eng fs pattern "packagesToSearch dirname packageId" rs tr]
    by auto
  from a scanFiles_prefix_stop [of "of_int k" eng r fs d pre st post]
    searchLoop_prefix_stop [of pkgs eng fs pattern "of_int k" st' st'' later]
  show ?thesis
    unfolding cap by blast
qed

theorem search_result_cap_witness:
  "searchAll literal_engine example_fs example_dirname ''all'' ''useForm'' (of_int 1)
     = Inr ([(''react-core'', \<lparr>mfile = ''index.ts'', mline = 2, mcontent = ''useForm x''\<rparr>)],
            [ListDir ''/srv/react-base-core'', ReadFile ''/srv/react-base-core/index.ts'']) \<and>
   int (length [(''react-core'', \<lparr>mfile = ''index.ts'', mline = 2, mcontent = ''useForm x''\<rparr>)])
     \<le> max 0 1 \<and>
   searchAll literal_engine example_fs example_dirname ''all'' ''useForm'' (of_int 0)
     = Inr ([], [ListDir ''/srv/react-base-core'']) \<and>
   (\<forall>path. ReadFile path \<notin> set [ListDir ''/srv/react-base-core'']) \<and>
   scanFiles literal_engine ''useForm'' (of_int 1) example_fs ''/srv/react-base-core''
       ([''index.ts''] @ [''form/types.ts'', ''form/hooks/useForm.tsx'']) ([], 0, [])
     = scanFiles literal_engine ''useForm'' (of_int 1) example_fs ''/srv/react-base-core''
         [''index.ts''] ([], 0, []) \<and>
   searchLoop literal_engine example_fs ''useForm'' (of_int 1)
       ([PACKAGES example_dirname ! 0] @ tl (PACKAGES example_dirname)) ([], [])
     = Inr ([(''react-core'', \<lparr>mfile = ''index.ts'', mline = 2, mcontent = ''useForm x''\<rparr>)],
            [ListDir ''/srv/react-base-core'', ReadFile ''/srv/react-base-core/index.ts''])"
proof -
  let ?m = "\<lparr>mfile = ''index.ts'', mline = 2, mcontent = ''useForm x''\<rparr>"
  let ?tr = "[ListDir ''/srv/react-base-core'', ReadFile ''/srv/react-base-core/index.ts'']"
  note cap = search_result_cap
  have a: "searchAll literal_engine example_fs example_dirname ''all'' ''useForm'' (of_int 1)
     = Inr ([(''react-core'', ?m)], ?tr)"
    by code_simp
  have b: "searchAll literal_engine example_fs example_dirname ''all'' ''useForm'' (of_int 0)
     = Inr ([], [ListDir ''/srv/react-base-core''])"
    by code_simp
  have c: "1 \<le> int (length (fst (scanFiles literal_engine ''useForm'' (of_int 1) example_fs
      ''/srv/react-base-core'' [''index.ts''] ([], 0, []))))"
    by code_simp
  have d: "[PACKAGES example_dirname ! 0] \<noteq> []
      \<and> searchLoop literal_engine example_fs ''useForm'' (of_int 1) [PACKAGES example_dirname ! 0]
            ([], [])
          = Inr ([(''react-core'', ?m)], ?tr)
      \<and> 1 \<le> int (length (fst ([(''react-core'', ?m)], ?tr)))"
    by code_simp
  from a cap [where eng = literal_engine and fs = example_fs and dirname = example_dirname
      and packageId = "''all''" and pattern = "''useForm''" and k = 1
      and rs = "[(''react-core'', ?m)]" and tr = ?tr]
  have 1: "int (length [(''react-core'', ?m)]) \<le> max 0 1"
    by blast
  from b cap [where eng = literal_engine and fs = example_fs and dirname = example_dirname
      and packageId = "''all''" and pattern = "''useForm''" and k = 0
      and rs = "[]" and tr = "[ListDir ''/srv/react-base-core'']"]
  have 2: "\<forall>path. ReadFile path \<notin> set [ListDir ''/srv/react-base-core'']"
    by simp
  from c cap [where eng = literal_engine and r = "''useForm''" and k = 1
      and fs = example_fs and d = "''/srv/react-base-core''" and pre = "[''index.ts'']"
      and st = "([], 0, [])" and post = "[''form/types.ts'', ''form/hooks/useForm.tsx'']"]
  have 3: "scanFiles literal_engine ''useForm'' (of_int 1) example_fs ''/srv/react-base-core''
       ([''index.ts''] @ [''form/types.ts'', ''form/hooks/useForm.tsx'']) ([], 0, [])
     = scanFiles literal_engine ''useForm'' (of_int 1) example_fs ''/srv/react-base-core''
         [''index.ts''] ([], 0, [])"
    by blast
  from d cap [where eng = literal_engine and fs = example_fs and pattern = "''useForm''"
      and k = 1 and pkgs = "[PACKAGES example_dirname ! 0]" and st' = "([], [])"
      and st'' = "([(''react-core'', ?m)], ?tr)" and later = "tl (PACKAGES example_dirname)"]
  have 4: "searchLoop literal_engine example_fs ''useForm'' (of_int 1)
       ([PACKAGES example_dirname ! 0] @ tl (PACKAGES example_dirname)) ([], [])
     = Inr ([(''react-core'', ?m)], ?tr)"
    by blast
  from a b 1 2 3 4 show ?thesis by (intro conjI)
qed

subsection \<open>Every line is tested on its own\<close>

text \<open>
  C10. The result of the search of a package is a function of the files, the pattern and
  \<open>maxResults\<close>: two runs return the same list, whatever happened before them. The
  \<open>lastIndex\<close> of the expression is zero before every test (a failed test leaves it at
  zero, and the loop sets it to zero after a match), so each test of a line is a test from
  the start of that line, the loop over the lines of a file returns the matching lines up
  to the cap and leaves \<open>lastIndex\<close> at zero, and the search returns the first entries, up
  to the cap, of the matching lines of all files, each line judged on its own. A cap that
  is no integer counts as the next integer above it.
\<close>

theorem search_lines_independent:
  "regex_test eng r 0 l
     = (exec eng r l 0 \<noteq> None, case exec eng r l 0 of None \<Rightarrow> 0 | Some e \<Rightarrow> e) \<and>
   scanLines eng r m f ls i (rs0, 0)
     = (rs0 @ take (nat (\<lceil>m\<rceil> - int (length rs0))) (matchingLines eng r f ls i), 0) \<and>
   (compileOrEscape eng pattern = Inr r \<and> searchInPackage eng fs p pattern m tr = Inr (rs, tr') \<longrightarrow>
      rs = take (nat \<lceil>m\<rceil>) (concat (map (fileMatches eng r fs (dir p)) (filesOf fs (dir p))))) \<and>
   (searchInPackage eng fs p pattern m tr1 = Inr (rs1, tr1')
      \<and> searchInPackage eng fs p pattern m tr2 = Inr (rs2, tr2') \<longrightarrow> rs1 = rs2)"
proof -
  have same: "rs1 = rs2"
    if a: "searchInPackage eng fs p pattern m tr1 = Inr (rs1, tr1')"
      and b: "searchInPackage eng fs p pattern m tr2 = Inr (rs2, tr2')"
  proof -
    from searchInPackage_Inr [OF a] obtain r' where c: "compileOrEscape eng pattern = Inr r'"
      by blast
    from searchInPackage_spec [OF c a] searchInPackage_spec [OF c b] show ?thesis
      by simp
  qed
  from same regex_test_zero [of eng r l] scanLines_spec [of eng r m f ls i rs0]
    searchInPackage_spec [of eng pattern r fs p m tr rs tr']
  show ?thesis by blast
qed

theorem search_lines_independent_witness:
  "compileOrEscape literal_engine ''useForm'' = Inr ''useForm'' \<and>
   searchInPackage literal_engine example_fs (PACKAGES example_dirname ! 0) ''useForm'' 5 []
     = Inr ([\<lparr>mfile = ''index.ts'', mline = 2, mcontent = ''useForm x''\<rparr>,
             \<lparr>mfile = ''form/hooks/useForm.tsx'', mline = 1, mcontent = ''useForm''\<rparr>],
            [ListDir ''/srv/react-base-core'', ReadFile ''/srv/react-base-core/index.ts'',
             ReadFile ''/srv/react-base-core/form/types.ts'',
             ReadFile ''/srv/react-base-core/form/hooks/useForm.tsx'',
             ReadFile ''/srv/react-base-core/queries/types.ts'']) \<and>
   [\<lparr>mfile = ''index.ts'', mline = 2, mcontent = ''useForm x''\<rparr>,
    \<lparr>mfile = ''form/hooks/useForm.tsx'', mline = 1, mcontent = ''useForm''\<rparr>]
     = take (nat \<lceil>5 :: rat\<rceil>) (concat (map
         (fileMatches literal_engine ''useForm'' example_fs (dir (PACKAGES example_dirname ! 0)))
         (filesOf example_fs (dir (PACKAGES example_dirname ! 0)))))"
proof -
  let ?p = "PACKAGES example_dirname ! 0"
  let ?rs = "[\<lparr>mfile = ''index.ts'', mline = 2, mcontent = ''useForm x''\<rparr>,
             \<lparr>mfile = ''form/hooks/useForm.tsx'', mline = 1, mcontent = ''useForm''\<rparr>]"
  let ?tr = "[ListDir ''/srv/react-base-core'', ReadFile ''/srv/react-base-core/index.ts'',
             ReadFile ''/srv/react-base-core/form/types.ts'',
             ReadFile ''/srv/react-base-core/form/hooks/useForm.tsx'',
             ReadFile ''/srv/react-base-core/queries/types.ts'']"
  have a: "compileOrEscape literal_engine ''useForm'' = Inr ''useForm''"
    by code_simp
  have b: "searchInPackage literal_engine example_fs ?p ''useForm'' 5 [] = Inr (?rs, ?tr)"
    by code_simp
  from a b search_lines_independent [where eng = literal_engine and pattern = "''useForm''"
      and r = "''useForm''" and fs = example_fs and p = ?p and m = 5 and tr = "[]"
      and rs = ?rs and tr' = ?tr]
  have "?rs = take (nat \<lceil>5 :: rat\<rceil>) (concat (map
         (fileMatches literal_engine ''useForm'' example_fs (dir ?p))
         (filesOf example_fs (dir ?p))))"
    by blast
  with a b show ?thesis by (intro conjI)
qed

subsection \<open>The matches and their order\<close>

text \<open>
  C8. The matches returned by the local search are the first entries, up to the cap, of
  this sequence: the packages of the scope in their order, within a package its files in
  the order of the enumeration, within a file its matching lines. A file gives the
  matching lines of its text split at line feeds, and nothing when it cannot be read.
  Every match of a file carries the path of the file, a line number from 1 up to the
  number of lines, and the trimmed text of the line with that number, which matches; the
  line numbers of the matches of a file increase strictly, so a line gives at most one
  match. The trimmed text of a line is the line without the white space and line
  terminators at its two ends: what is cut off on either side is made of such characters,
  and what is left neither starts nor ends with one.
\<close>

theorem search_matches_ordered:
  "(compileOrEscape eng pattern = Inr r
      \<and> searchAll eng fs dirname packageId pattern m = Inr (rs, tr) \<longrightarrow>
      rs = take (nat \<lceil>m\<rceil>)
             (concat (map (\<lambda>p. map (\<lambda>x. (pkg_id p, x))
                                  (concat (map (fileMatches eng r fs (dir p)) (filesOf fs (dir p)))))
                (packagesToSearch dirname packageId)))) \<and>
   (readFileSync fs (join [d, f]) = Some content \<longrightarrow>
      fileMatches eng r fs d f = matchingLines eng r f (split_on CHR 0x0A content) 0) \<and>
   (readFileSync fs (join [d, f]) = None \<longrightarrow> fileMatches eng r fs d f = []) \<and>
   (\<forall>x \<in> set (matchingLines eng r f ls 0).
      mfile x = f \<and> 1 \<le> mline x \<and> mline x \<le> length ls
        \<and> mcontent x = trim (ls ! (mline x - 1))
        \<and> exec eng r (ls ! (mline x - 1)) 0 \<noteq> None) \<and>
   sorted_wrt (<) (map mline (matchingLines eng r f ls 0)) \<and>
   (\<exists>us vs. set us \<subseteq> set WHITESPACE \<and> set vs \<subseteq> set WHITESPACE
      \<and> l = concat us @ trim l @ concat vs) \<and>
   spaceAt WHITESPACE (trim l) = 0 \<and>
   spaceAt (map rev WHITESPACE) (rev (trim l)) = 0"
proof -
  have a: "compileOrEscape eng pattern = Inr r
      \<and> searchAll eng fs dirname packageId pattern m = Inr (rs, tr) \<longrightarrow>
      rs = take (nat \<lceil>m\<rceil>)
             (concat (map (\<lambda>p. map (\<lambda>x. (pkg_id p, x))
                                  (concat (map (fileMatches eng r fs (dir p)) (filesOf fs (dir p)))))
                (packagesToSearch dirname packageId)))"
    using searchLoop_spec [of eng pattern r fs m "packagesToSearch dirname packageId" "[]" "[]" rs tr]
    unfolding searchAll_def packageMatches_def by auto
  have b: "\<forall>x \<in> set (matchingLines eng r f ls 0).
      mfile x = f \<and> 1 \<le> mline x \<and> mline x \<le> length ls
        \<and> mcontent x = trim (ls ! (mline x - 1))
        \<and> exec eng r (ls ! (mline x - 1)) 0 \<noteq> None"
    by (auto simp: matchingLines_set)
  have c: "(readFileSync fs (join [d, f]) = Some content \<longrightarrow>
      fileMatches eng r fs d f = matchingLines eng r f (split_on CHR 0x0A content) 0) \<and>
   (readFileSync fs (join [d, f]) = None \<longrightarrow> fileMatches eng r fs d f = [])"
    by (simp add: fileMatches_def)
  from a b c matchingLines_sorted [of eng r f ls 0] trim_decomp [of l] trim_ends [of l]
  show ?thesis by (intro conjI) (erule conjunct1 conjunct2 | assumption)+
qed

theorem search_matches_ordered_witness:
  "searchAll literal_engine example_fs example_dirname ''all'' ''useForm'' 2
     = Inr ([(''react-core'', \<lparr>mfile = ''index.ts'', mline = 2, mcontent = ''useForm x''\<rparr>),
             (''react-core'',
              \<lparr>mfile = ''form/hooks/useForm.tsx'', mline = 1, mcontent = ''useForm''\<rparr>)],
            [ListDir ''/srv/react-base-core'', ReadFile ''/srv/react-base-core/index.ts'',
             ReadFile ''/srv/react-base-core/form/types.ts'',
             ReadFile ''/srv/react-base-core/form/hooks/useForm.tsx'']) \<and>
   [(''react-core'', \<lparr>mfile = ''index.ts'', mline = 2, mcontent = ''useForm x''\<rparr>),
    (''react-core'', \<lparr>mfile = ''form/hooks/useForm.tsx'', mline = 1, mcontent = ''useForm''\<rparr>)]
     = take (nat \<lceil>2 :: rat\<rceil>)
         (concat (map (\<lambda>p. map (\<lambda>x. (pkg_id p, x))
            (concat (map (fileMatches literal_engine ''useForm'' example_fs (dir p))
               (filesOf example_fs (dir p)))))
            (packagesToSearch example_dirname ''all''))) \<and>
   fileMatches literal_engine ''useForm'' example_fs ''/srv/react-base-core'' ''index.ts''
     = matchingLines literal_engine ''useForm'' ''index.ts'' [''export a('', ''  useForm x''] 0 \<and>
   fileMatches literal_engine ''useForm'' example_fs ''/srv/react-base-core'' ''queries/types.ts''
     = [] \<and>
   searchAll literal_engine spaced_fs example_dirname ''react-pages'' ''useForm'' 20
     = Inr ([(''react-pages'', \<lparr>mfile = ''page.tsx'', mline = 1, mcontent = ''useForm x''\<rparr>)],
            [ListDir ''/srv/react-base-core/pages'',
             ReadFile ''/srv/react-base-core/pages/page.tsx'']) \<and>
   \<lparr>mfile = ''page.tsx'', mline = 1, mcontent = ''useForm x''\<rparr>
     \<in> set (matchingLines literal_engine ''useForm'' ''page.tsx'' [spaced_line] 0) \<and>
   mcontent \<lparr>mfile = ''page.tsx'', mline = 1, mcontent = ''useForm x''\<rparr>
     = trim ([spaced_line] ! (mline \<lparr>mfile = ''page.tsx'', mline = 1, mcontent = ''useForm x''\<rparr> - 1)) \<and>
   trim spaced_line = ''useForm x''"
proof -
  let ?m1 = "\<lparr>mfile = ''index.ts'', mline = 2, mcontent = ''useForm x''\<rparr>"
  let ?m2 = "\<lparr>mfile = ''form/hooks/useForm.tsx'', mline = 1, mcontent = ''useForm''\<rparr>"
  let ?m3 = "\<lparr>mfile = ''page.tsx'', mline = 1, mcontent = ''useForm x''\<rparr>"
  let ?tr = "[ListDir ''/srv/react-base-core'', ReadFile ''/srv/react-base-core/index.ts'',
             ReadFile ''/srv/react-base-core/form/types.ts'',
             ReadFile ''/srv/react-base-core/form/hooks/useForm.tsx'']"
  let ?ls = "[''export a('', ''  useForm x'']"
  note ord = search_matches_ordered
  have a: "compileOrEscape literal_engine ''useForm'' = Inr ''useForm''
      \<and> searchAll literal_engine example_fs example_dirname ''all'' ''useForm'' 2
          = Inr ([(''react-core'', ?m1), (''react-core'', ?m2)], ?tr)"
    by code_simp
  have b: "readFileSync example_fs (join [''/srv/react-base-core'', ''index.ts''])
      = Some (''export a('' @ nl @ ''  useForm x'')"
    "split_on CHR 0x0A (''export a('' @ nl @ ''  useForm x'') = ?ls"
    by code_simp+
  have c: "readFileSync example_fs (join [''/srv/react-base-core'', ''queries/types.ts'']) = None"
    by code_simp
  have d: "?m3 \<in> set (matchingLines literal_engine ''useForm'' ''page.tsx'' [spaced_line] 0)"
    by code_simp
  have e: "searchAll literal_engine spaced_fs example_dirname ''react-pages'' ''useForm'' 20
     = Inr ([(''react-pages'', ?m3)],
            [ListDir ''/srv/react-base-core/pages'',
             ReadFile ''/srv/react-base-core/pages/page.tsx''])"
    by code_simp
  have t: "trim spaced_line = ''useForm x''"
    by code_simp
  from a ord [where eng = literal_engine and pattern = "''useForm''" and r = "''useForm''"
      and fs = example_fs and dirname = example_dirname and packageId = "''all''" and m = 2
      and rs = "[(''react-core'', ?m1), (''react-core'', ?m2)]" and tr = ?tr]
  have 1: "[(''react-core'', ?m1), (''react-core'', ?m2)]
     = take (nat \<lceil>2 :: rat\<rceil>)
         (concat (map (\<lambda>p. map (\<lambda>x. (pkg_id p, x))
            (concat (map (fileMatches literal_engine ''useForm'' example_fs (dir p))
               (filesOf example_fs (dir p)))))
            (packagesToSearch example_dirname ''all'')))"
    by blast
  from b ord [where eng = literal_engine and r = "''useForm''" and fs = example_fs
      and d = "''/srv/react-base-core''" and f = "''index.ts''"
      and content = "''export a('' @ nl @ ''  useForm x''"]
  have 2: "fileMatches literal_engine ''useForm'' example_fs ''/srv/react-base-core'' ''index.ts''
     = matchingLines literal_engine ''useForm'' ''index.ts'' ?ls 0"
    by simp
  from c ord [where eng = literal_engine and r = "''useForm''" and fs = example_fs
      and d = "''/srv/react-base-core''" and f = "''queries/types.ts''"]
  have 3: "fileMatches literal_engine ''useForm'' example_fs ''/srv/react-base-core''
      ''queries/types.ts'' = []"
    by simp
  from d ord [where eng = literal_engine and r = "''useForm''" and f = "''page.tsx''"
      and ls = "[spaced_line]"]
  have 4: "mcontent ?m3 = trim ([spaced_line] ! (mline ?m3 - 1))"
    by blast
  from a [THEN conjunct2] 1 2 3 e d 4 t show ?thesis by (intro conjI)
qed

subsection \<open>Patterns that do not compile\<close>

text \<open>
  C4. The escaped form of any pattern is a literal pattern of the language that stands
  for the pattern itself: every syntax character in it is behind a backslash, and nothing
  else is. So, with an engine that treats literal patterns as the language says, and a
  pattern that does not compile: the expression of the search is the escaped pattern;
  neither the search of a package nor the tool fails with a syntax error; a line of a
  listed, readable file that contains the pattern is among the matches returned, unless
  the cap was reached; and with a positive cap the tool, asked for that package, answers
  with the text of these results.
\<close>

theorem invalid_pattern_literal_fallback:
  assumes "matches_literals eng" and "compile eng pattern = None"
  shows "literalPattern (escapeRegExp pattern) = Some pattern \<and>
         (\<exists>r. compileOrEscape eng pattern = Inr r
            \<and> compile eng (escapeRegExp pattern) = Some r) \<and>
         (\<forall>e. searchInPackage eng fs p pattern m tr \<noteq> Inl (SyntaxError e)) \<and>
         (\<forall>e. search_source eng fs dirname packageId pattern m' \<noteq> Inl (SyntaxError e)) \<and>
         (collectSourceFiles fs (dir p) = Inr files \<and> f \<in> set files
            \<and> readFileSync fs (join [dir p, f]) = Some content
            \<and> k < length (split_on CHR 0x0A content)
            \<and> sublist pattern (split_on CHR 0x0A content ! k) \<longrightarrow>
          (\<exists>rs tr'. searchInPackage eng fs p pattern m tr = Inr (rs, tr')
             \<and> (\<lparr>mfile = f, mline = k + 1, mcontent = trim (split_on CHR 0x0A content ! k)\<rparr>
                  \<in> set rs
                \<or> of_nat (length rs) \<ge> m)
             \<and> (findPackage dirname packageId = Some p \<and> packageId \<noteq> ''all''
                  \<and> tr = [] \<and> 0 < m \<longrightarrow>
                search_source eng fs dirname packageId pattern m
                  = Inr \<lparr>etext = resultsText pattern (map (\<lambda>x. (pkg_id p, x)) rs),
                          isError = False\<rparr>)))"
proof -
  have esc: "literalPattern (escapeRegExp pattern) = Some pattern"
    by (rule literalPattern_escape)
  with assms(1) obtain r where r: "compile eng (escapeRegExp pattern) = Some r"
    and lit: "\<forall>s. sublist pattern s \<longrightarrow> exec eng r s 0 \<noteq> None"
    unfolding matches_literals_def by blast
  from r assms(2) have c: "compileOrEscape eng pattern = Inr r"
    by (simp add: compileOrEscape_def)
  have noerr: "searchInPackage eng fs' p' pattern n t \<noteq> Inl (SyntaxError e)" for fs' p' n t e
    using c by (auto simp: searchInPackage_def collectSourceFiles_def
        split: sum.splits prod.splits option.splits fsnode.splits if_splits)
  have tool: "search_source eng fs dirname packageId pattern m' \<noteq> Inl (SyntaxError e)" for e
  proof
    assume "search_source eng fs dirname packageId pattern m' = Inl (SyntaxError e)"
    then have "searchAll eng fs dirname packageId pattern m' = Inl (SyntaxError e)"
      by (auto simp: search_source_def split: if_splits sum.splits prod.splits)
    from searchLoop_Inl [OF this [unfolded searchAll_def]] noerr show False
      by blast
  qed
  have found: "\<exists>rs tr'. searchInPackage eng fs p pattern m tr = Inr (rs, tr')
             \<and> (\<lparr>mfile = f, mline = k + 1, mcontent = trim (split_on CHR 0x0A content ! k)\<rparr>
                  \<in> set rs
                \<or> of_nat (length rs) \<ge> m)
             \<and> (findPackage dirname packageId = Some p \<and> packageId \<noteq> ''all''
                  \<and> tr = [] \<and> 0 < m \<longrightarrow>
                search_source eng fs dirname packageId pattern m
                  = Inr \<lparr>etext = resultsText pattern (map (\<lambda>x. (pkg_id p, x)) rs),
                          isError = False\<rparr>)"
    if files: "collectSourceFiles fs (dir p) = Inr files" and f: "f \<in> set files"
      and rd: "readFileSync fs (join [dir p, f]) = Some content"
      and k: "k < length (split_on CHR 0x0A content)"
      and sub: "sublist pattern (split_on CHR 0x0A content ! k)"
  proof -
    let ?x = "\<lparr>mfile = f, mline = k + 1, mcontent = trim (split_on CHR 0x0A content ! k)\<rparr>"
    let ?all = "concat (map (fileMatches eng r fs (dir p)) (filesOf fs (dir p)))"
    obtain rs li tr' where
      s: "scanFiles eng r m fs (dir p) files ([], 0, tr @ [ListDir (dir p)]) = (rs, li, tr')"
      by (cases "scanFiles eng r m fs (dir p) files ([], 0, tr @ [ListDir (dir p)])")
    with files c have run: "searchInPackage eng fs p pattern m tr = Inr (rs, tr')"
      by (simp add: searchInPackage_def)
    from searchInPackage_spec [OF c run] have rs: "rs = take (nat \<lceil>m\<rceil>) ?all" .
    from k sub lit have "?x \<in> set (matchingLines eng r f (split_on CHR 0x0A content) 0)"
      by (auto simp: matchingLines_set)
    with rd have "?x \<in> set (fileMatches eng r fs (dir p) f)"
      by (simp add: fileMatches_def)
    with f files have mem: "?x \<in> set ?all"
      by (auto simp: filesOf_def)
    have hit: "?x \<in> set rs \<or> of_nat (length rs) \<ge> m"
    proof (cases "length ?all \<le> nat \<lceil>m\<rceil>")
      case True
      with rs mem show ?thesis by simp
    next
      case False
      with rs have "length rs = nat \<lceil>m\<rceil>" by simp
      then have "\<lceil>m\<rceil> \<le> int (length rs)" by linarith
      then show ?thesis by (simp add: at_cap)
    qed
    have env: "search_source eng fs dirname packageId pattern m
        = Inr \<lparr>etext = resultsText pattern (map (\<lambda>x. (pkg_id p, x)) rs), isError = False\<rparr>"
      if fp: "findPackage dirname packageId = Some p" and na: "packageId \<noteq> ''all''"
        and t: "tr = []" and pos: "0 < m"
    proof -
      from hit pos have "rs \<noteq> []" by auto
      moreover from searchAll_single [OF fp na run [unfolded t]]
      have "searchAll eng fs dirname packageId pattern m
          = Inr (map (\<lambda>x. (pkg_id p, x)) rs, tr')" .
      ultimately show ?thesis
        using fp na by (simp add: search_source_def packagesToSearch_def ok_def)
    qed
    from run hit env show ?thesis by blast
  qed
  from esc r c noerr tool found show ?thesis by blast
qed

theorem invalid_pattern_literal_fallback_witness:
  "matches_literals literal_engine \<and> compile literal_engine ''a('' = None \<and>
   escapeRegExp ''a('' = [CHR ''a'', CHR 0x5C, CHR ''(''] \<and>
   literalPattern (escapeRegExp ''a('') = Some ''a('' \<and>
   compileOrEscape literal_engine ''a('' = Inr ''a('' \<and>
   searchInPackage literal_engine example_fs (PACKAGES example_dirname ! 0) ''a('' 5 []
     \<noteq> Inl (SyntaxError ''a('') \<and>
   searchInPackage literal_engine example_fs (PACKAGES example_dirname ! 0) ''a('' 5 []
     = Inr ([\<lparr>mfile = ''index.ts'', mline = 1, mcontent = ''export a(''\<rparr>],
            [ListDir ''/srv/react-base-core'', ReadFile ''/srv/react-base-core/index.ts'',
             ReadFile ''/srv/react-base-core/form/types.ts'',
             ReadFile ''/srv/react-base-core/form/hooks/useForm.tsx'',
             ReadFile ''/srv/react-base-core/queries/types.ts'']) \<and>
   (\<lparr>mfile = ''index.ts'', mline = 0 + 1,
      mcontent = trim (split_on CHR 0x0A (''export a('' @ nl @ ''  useForm x'') ! 0)\<rparr>
      \<in> set [\<lparr>mfile = ''index.ts'', mline = 1, mcontent = ''export a(''\<rparr>]
    \<or> (5 :: rat) \<le> of_nat (length [\<lparr>mfile = ''index.ts'', mline = 1, mcontent = ''export a(''\<rparr>])) \<and>
   search_source literal_engine example_fs example_dirname ''react-core'' ''a('' 5
     = Inr \<lparr>etext = resultsText ''a(''
                 [(''react-core'', \<lparr>mfile = ''index.ts'', mline = 1, mcontent = ''export a(''\<rparr>)],
              isError = False\<rparr>"
proof -
  let ?p = "PACKAGES example_dirname ! 0"
  let ?content = "''export a('' @ nl @ ''  useForm x''"
  let ?rs = "[\<lparr>mfile = ''index.ts'', mline = 1, mcontent = ''export a(''\<rparr>]"
  let ?tr = "[ListDir ''/srv/react-base-core'', ReadFile ''/srv/react-base-core/index.ts'',
             ReadFile ''/srv/react-base-core/form/types.ts'',
             ReadFile ''/srv/react-base-core/form/hooks/useForm.tsx'',
             ReadFile ''/srv/react-base-core/queries/types.ts'']"
  have a: "compile literal_engine ''a('' = None"
    by code_simp
  have b: "collectSourceFiles example_fs (dir ?p)
        = Inr [''index.ts'', ''form/types.ts'', ''form/hooks/useForm.tsx'', ''queries/types.ts'']
      \<and> ''index.ts'' \<in> set [''index.ts'', ''form/types.ts'', ''form/hooks/useForm.tsx'',
            ''queries/types.ts'']
      \<and> readFileSync example_fs (join [dir ?p, ''index.ts'']) = Some ?content
      \<and> 0 < length (split_on CHR 0x0A ?content)
      \<and> sublist ''a('' (split_on CHR 0x0A ?content ! 0)"
    by code_simp
  have c: "compileOrEscape literal_engine ''a('' = Inr ''a(''"
    by code_simp
  have d: "searchInPackage literal_engine example_fs ?p ''a('' 5 [] = Inr (?rs, ?tr)"
    by code_simp
  have e: "escapeRegExp ''a('' = [CHR ''a'', CHR 0x5C, CHR ''('']"
    by code_simp
  have g: "findPackage example_dirname ''react-core'' = Some ?p \<and> ''react-core'' \<noteq> ''all''
      \<and> ([] :: io_event list) = [] \<and> (0 :: rat) < 5"
    by code_simp
  have h: "pkg_id ?p = ''react-core''"
    by code_simp
  note fb = invalid_pattern_literal_fallback [OF literal_engine_literals a,
      where fs = example_fs and p = ?p and m = 5 and tr = "[]"
        and files = "[''index.ts'', ''form/types.ts'', ''form/hooks/useForm.tsx'',
            ''queries/types.ts'']"
        and f = "''index.ts''" and content = ?content and k = 0
        and dirname = example_dirname and packageId = "''react-core''"]
  from fb have 0: "literalPattern (escapeRegExp ''a('') = Some ''a(''"
    by (rule conjunct1)
  from fb have 1: "searchInPackage literal_engine example_fs ?p ''a('' 5 []
      \<noteq> Inl (SyntaxError ''a('')"
    by blast
  from fb b g obtain rs tr' where
    run: "searchInPackage literal_engine example_fs ?p ''a('' 5 [] = Inr (rs, tr')" and
    hit: "\<lparr>mfile = ''index.ts'', mline = 0 + 1,
            mcontent = trim (split_on CHR 0x0A ?content ! 0)\<rparr> \<in> set rs
          \<or> (5 :: rat) \<le> of_nat (length rs)" and
    env: "search_source literal_engine example_fs example_dirname ''react-core'' ''a('' 5
        = Inr \<lparr>etext = resultsText ''a('' (map (\<lambda>x. (pkg_id ?p, x)) rs), isError = False\<rparr>"
    by blast
  from run d have rs: "rs = ?rs"
    by simp
  from hit
  have 2: "\<lparr>mfile = ''index.ts'', mline = 0 + 1,
             mcontent = trim (split_on CHR 0x0A ?content ! 0)\<rparr> \<in> set ?rs
          \<or> (5 :: rat) \<le> of_nat (length ?rs)"
    unfolding rs .
  from env have 3: "search_source literal_engine example_fs example_dirname ''react-core'' ''a('' 5
     = Inr \<lparr>etext = resultsText ''a('' [(''react-core'', \<lparr>mfile = ''index.ts'', mline = 1,
                 mcontent = ''export a(''\<rparr>)], isError = False\<rparr>"
    unfolding rs h by simp
  from literal_engine_literals a e 0 c 1 d 2 3 show ?thesis by (intro conjI)
qed

subsection \<open>Splitting and joining\<close>

lemma split_on_not_Nil: "split_on c xs \<noteq> []"
  by (induction xs) (auto split: list.splits)

lemma split_on_no_sep: "c \<notin> set xs \<Longrightarrow> split_on c xs = [xs]"
  by (induction xs) auto

lemma split_on_append: "split_on c (a @ c # b) = split_on c a @ split_on c b"
proof (induction a)
  case Nil
  show ?case by simp
next
  case (Cons x a)
  obtain y ys where s: "split_on c a = y # ys"
    using split_on_not_Nil [of c a] by (cases "split_on c a") auto
  with Cons show ?case by simp
qed

lemma split_on_pieces: "p \<in> set (split_on c xs) \<Longrightarrow> c \<notin> set p"
proof (induction xs arbitrary: p)
  case Nil
  then show ?case by simp
next
  case (Cons x xs)
  obtain y ys where s: "split_on c xs = y # ys"
    using split_on_not_Nil [of c xs] by (cases "split_on c xs") auto
  with Cons.IH [of y] have y: "c \<notin> set y" by simp
  show ?case
  proof (cases "x = c")
    case True
    with Cons show ?thesis by auto
  next
    case False
    with Cons.prems s have "p = x # y \<or> p \<in> set ys" by simp
    with False y Cons.IH [of p] s show ?thesis by auto
  qed
qed

lemma join_with_snoc: "ds \<noteq> [] \<Longrightarrow> join_with sep (ds @ [n]) = join_with sep ds @ sep @ n"
  by (induction sep ds rule: join_with.induct) auto

lemma split_on_join:
  "ds \<noteq> [] \<Longrightarrow> \<forall>n \<in> set ds. c \<notin> set n \<Longrightarrow> split_on c (join_with [c] ds) = ds"
proof (induction "[c]" ds rule: join_with.induct)
  case 1
  then show ?case by simp
next
  case (2 x)
  then show ?case by (simp add: split_on_no_sep)
next
  case (3 x y ys)
  then show ?case by (simp add: split_on_append split_on_no_sep)
qed

lemma suffix_join_last: "ns \<noteq> [] \<Longrightarrow> suffix (last ns) (join_with sep ns)"
proof (induction sep ns rule: join_with.induct)
  case (3 sep x y ys)
  then have "suffix (last (y # ys)) (join_with sep (y # ys))" by simp
  then show ?case by (simp add: suffix_append)
qed simp_all

lemma join_with_not_Nil: "ns \<noteq> [] \<Longrightarrow> last ns \<noteq> [] \<Longrightarrow> join_with sep ns \<noteq> []"
  using suffix_join_last [of ns sep] by (auto simp: suffix_def)

subsection \<open>Paths\<close>

lemma segments_append: "segments (a @ CHR ''/'' # b) = segments a @ segments b"
  by (simp add: segments_def split_on_append)

lemma segments_name: "wf_name n \<Longrightarrow> segments n = [n]"
  by (simp add: segments_def wf_name_def split_on_no_sep)

lemma segments_pieces: "s \<in> set (segments p) \<Longrightarrow> s \<noteq> [] \<and> CHR ''/'' \<notin> set s"
  using split_on_pieces [of s "CHR ''/''" p] by (auto simp: segments_def)

lemma segments_abs_path: "\<forall>n \<in> set ds. wf_name n \<Longrightarrow> segments (abs_path ds) = ds"
proof (cases ds)
  case Nil
  then show ?thesis by (simp add: abs_path_def segments_def)
next
  case (Cons d ds')
  assume wf: "\<forall>n \<in> set ds. wf_name n"
  then have "split_on CHR ''/'' (join_with ''/'' ds) = ds"
    using Cons by (intro split_on_join) (auto simp: wf_name_def)
  moreover from wf have "filter (\<lambda>s. s \<noteq> []) ds = ds"
    by (auto simp: wf_name_def filter_id_conv)
  ultimately show ?thesis by (simp add: abs_path_def segments_def)
qed

lemma normalize_segs_plain:
  "\<forall>n \<in> set ss. n \<noteq> ''.'' \<and> n \<noteq> ''..'' \<Longrightarrow> normalize_segs b acc ss = rev acc @ ss"
  by (induction ss arbitrary: acc) auto

lemma normalize_segs_wf:
  "\<forall>s \<in> set ss. s \<noteq> [] \<and> CHR ''/'' \<notin> set s \<Longrightarrow> \<forall>a \<in> set acc. wf_name a \<Longrightarrow>
   \<forall>n \<in> set (normalize_segs False acc ss). wf_name n"
proof (induction ss arbitrary: acc)
  case Nil
  then show ?case by simp
next
  case (Cons s ss)
  from Cons.prems(1) have rest: "\<forall>s \<in> set ss. s \<noteq> [] \<and> CHR ''/'' \<notin> set s"
    by simp
  note IH = Cons.IH [OF rest] and prems = Cons.prems(2)
  consider (dot) "s = ''.''" | (dots) "s = ''..''" | (name) "s \<noteq> ''.''" "s \<noteq> ''..''"
    by blast
  then show ?case
  proof cases
    case dot
    then have "normalize_segs False acc (s # ss) = normalize_segs False acc ss"
      by simp
    with IH [OF prems] show ?thesis by (simp only:)
  next
    case dots
    show ?thesis
    proof (cases acc)
      case Nil
      with dots have "normalize_segs False acc (s # ss) = normalize_segs False [] ss"
        by simp
      with IH [of "[]"] show ?thesis by simp
    next
      case acc: (Cons a as)
      from acc prems have as: "\<forall>a \<in> set as. wf_name a"
        by simp
      show ?thesis
      proof (cases "a = ''..''")
        case True
        with acc dots have "normalize_segs False acc (s # ss) = normalize_segs False acc ss"
          by simp
        with IH [OF prems] show ?thesis by (simp only:)
      next
        case False
        with acc dots have "normalize_segs False acc (s # ss) = normalize_segs False as ss"
          by simp
        with IH [OF as] show ?thesis by (simp only:)
      qed
    qed
  next
    case name
    with Cons.prems have "\<forall>a \<in> set (s # acc). wf_name a"
      by (simp add: wf_name_def)
    moreover from name have "normalize_segs False acc (s # ss) = normalize_segs False (s # acc) ss"
      by simp
    ultimately show ?thesis using IH [of "s # acc"] by (simp only:)
  qed
qed

lemma root_abs_path:
  "\<exists>ds. (\<forall>n \<in> set ds. wf_name n) \<and> PACKAGES_ROOT dirname = abs_path ds"
proof -
  let ?ds = "normalize_segs False [] (segments (join_with ''/'' [dirname, ''../../react-base-core'']))"
  have "\<forall>n \<in> set ?ds. wf_name n"
    by (rule normalize_segs_wf) (auto dest: segments_pieces)
  moreover have "PACKAGES_ROOT dirname = abs_path ?ds"
    by (simp only: PACKAGES_ROOT_def resolve_def abs_path_def)
  ultimately show ?thesis by blast
qed

lemma wf_name_plain: "wf_name n \<Longrightarrow> n \<noteq> ''.'' \<and> n \<noteq> ''..''"
  by (simp add: wf_name_def)

lemma suffix_slash_name: "wf_name n \<Longrightarrow> \<not> suffix ''/'' (a @ n)"
proof
  assume wf: "wf_name n" and "suffix ''/'' (a @ n)"
  then obtain zs where "a @ n = zs @ ''/''" by (auto simp: suffix_def)
  moreover from wf have "n \<noteq> []" by (simp add: wf_name_def)
  ultimately have "last n = CHR ''/''" by (metis last_appendR last_snoc)
  with wf show False
    using last_in_set [of n] by (auto simp: wf_name_def)
qed

lemma join_abs_path:
  assumes "\<forall>n \<in> set ds. wf_name n" and "wf_name n"
  shows "join [abs_path ds, n] = abs_path (ds @ [n])"
proof -
  let ?p = "abs_path ds @ CHR ''/'' # n"
  from assms(2) have n: "n \<noteq> []" by (simp add: wf_name_def)
  have a: "abs_path ds \<noteq> []" by (simp add: abs_path_def)
  from a n have j: "join [abs_path ds, n] = normalize ?p" by (simp add: join_def)
  have seg: "segments ?p = ds @ [n]"
    using assms by (simp add: segments_append segments_abs_path segments_name)
  from assms have plain: "\<forall>m \<in> set (ds @ [n]). m \<noteq> ''.'' \<and> m \<noteq> ''..''"
    by (auto simp: wf_name_def)
  have norm: "normalize_segs False [] (segments ?p) = ds @ [n]"
    using normalize_segs_plain [OF plain, of False "[]"] seg by simp
  have body: "join_with ''/'' (ds @ [n]) \<noteq> []"
    using n by (intro join_with_not_Nil) auto
  have abs: "isAbsolute ?p" by (simp add: isAbsolute_def abs_path_def)
  have trail: "\<not> suffix ''/'' ?p"
    using suffix_slash_name [OF assms(2), of "abs_path ds @ ''/''"] by simp
  have "normalize ?p = ''/'' @ join_with ''/'' (ds @ [n])"
    using abs trail norm body by (simp add: normalize_def Let_def)
  with j show ?thesis by (simp add: abs_path_def)
qed

lemma drop_common_prefix: "drop_common bs (bs @ rs) = ([], rs)"
  by (induction bs) simp_all

lemma relative_abs_path:
  assumes "\<forall>n \<in> set bs. wf_name n" and "\<forall>n \<in> set rs. wf_name n"
  shows "relative (abs_path bs) (abs_path (bs @ rs)) = join_with ''/'' rs"
proof -
  from assms have all: "\<forall>n \<in> set (bs @ rs). wf_name n" by auto
  have b: "normalize_segs False [] (segments (abs_path bs)) = bs"
    using assms(1) normalize_segs_plain [of bs False "[]"]
    by (simp add: segments_abs_path wf_name_plain)
  have t: "normalize_segs False [] (segments (abs_path (bs @ rs))) = bs @ rs"
    using all normalize_segs_plain [of "bs @ rs" False "[]"]
    by (simp add: segments_abs_path wf_name_plain)
  show ?thesis by (simp add: relative_def b t drop_common_prefix)
qed

lemma extname_suffix: "extname n = e \<Longrightarrow> e \<noteq> [] \<Longrightarrow> suffix e n"
proof -
  assume e: "extname n = e" and ne: "e \<noteq> []"
  let ?P = "\<lambda>c. c \<noteq> CHR ''.''"
  from e ne have dot: "CHR ''.'' \<in> set n" and ext: "e = CHR ''.'' # rev (takeWhile ?P (rev n))"
    by (auto simp: extname_def Let_def split: if_splits)
  from dot have "dropWhile ?P (rev n) \<noteq> []" by (simp add: dropWhile_eq_Nil_conv)
  then obtain zs where d: "dropWhile ?P (rev n) = CHR ''.'' # zs"
    using hd_dropWhile [of ?P "rev n"] by (cases "dropWhile ?P (rev n)") auto
  have "rev n = takeWhile ?P (rev n) @ dropWhile ?P (rev n)" by simp
  with d have "rev n = takeWhile ?P (rev n) @ CHR ''.'' # zs" by simp
  then have "n = rev zs @ CHR ''.'' # rev (takeWhile ?P (rev n))"
    by (metis rev_append rev.simps(2) rev_rev_ident append_assoc append_Cons append_Nil)
  with ext show ?thesis by (metis suffix_def)
qed

subsection \<open>The enumeration\<close>

lemma walk_wf: "wf_fs n \<Longrightarrow> walk n ss = Some m \<Longrightarrow> wf_fs m"
proof (induction n ss rule: walk.induct)
  case (1 n)
  then show ?case by simp
next
  case (2 c s ss)
  then show ?case by simp
next
  case (3 es s ss)
  from "3.prems"(2) obtain n where n: "map_of es s = Some n" and w: "walk n ss = Some m"
    by (auto split: option.splits)
  from n have "(s, n) \<in> set es" by (rule map_of_SomeD)
  with "3.prems"(1) have "wf_fs n" by auto
  from "3.IH" [OF n this w] show ?case .
qed

lemma lookup_wf: "wf_fs fs \<Longrightarrow> lookup fs p = Some m \<Longrightarrow> wf_fs m"
  using walk_wf [of fs "segments p" m]
  by (auto simp: lookup_def split: option.splits fsnode.splits if_splits)

lemma collectEntries_paths:
  "\<forall>e \<in> set es. wf_name (fst e) \<and> wf_fs (snd e) \<Longrightarrow>
   \<forall>n \<in> set (bs @ rs). wf_name n \<Longrightarrow> \<forall>n \<in> set rs. n \<notin> set IGNORE \<Longrightarrow>
   base = abs_path bs \<Longrightarrow> d = abs_path (bs @ rs) \<Longrightarrow>
   x \<in> set (collectEntries exts base d es) \<Longrightarrow>
   \<exists>ns. ns \<noteq> [] \<and> (\<forall>n \<in> set ns. wf_name n \<and> n \<notin> set IGNORE)
      \<and> extname (last ns) \<in> set exts \<and> x = join_with ''/'' (rs @ ns)"
proof (induction exts base d es arbitrary: rs rule: collectEntries.induct)
  case (1 exts base d)
  then show ?case by simp
next
  case (2 exts base d entry node es)
  from "2.prems"(1) have entry: "wf_name entry" and node: "wf_fs node"
    and rest: "\<forall>e \<in> set es. wf_name (fst e) \<and> wf_fs (snd e)"
    by auto
  show ?case
  proof (cases "entry \<in> set IGNORE")
    case True
    with "2.prems"(6) have "x \<in> set (collectEntries exts base d es)" by simp
    from "2.IH"(1) [OF True rest "2.prems"(2,3,4,5) this] show ?thesis .
  next
    case False
    from "2.prems"(2) entry have wf': "\<forall>n \<in> set (bs @ rs @ [entry]). wf_name n"
      by auto
    from "2.prems"(2) entry "2.prems"(5)
    have d': "join [d, entry] = abs_path (bs @ rs @ [entry])"
      using join_abs_path [of "bs @ rs" entry] by simp
    from False "2.prems"(6) consider
      (here) "x \<in> set (case node of
                Dir sub \<Rightarrow> collectEntries exts base (join [d, entry]) sub
              | File c \<Rightarrow> if extname entry \<in> set exts
                           then [relative base (join [d, entry])] else [])"
      | (later) "x \<in> set (collectEntries exts base d es)"
      by auto
    then show ?thesis
    proof cases
      case later
      from "2.IH"(3) [OF False rest "2.prems"(2,3,4,5) this] show ?thesis .
    next
      case here
      show ?thesis
      proof (cases node)
        case (Dir sub)
        with node have sub: "\<forall>e \<in> set sub. wf_name (fst e) \<and> wf_fs (snd e)"
          by simp
        from False "2.prems"(3) have ign: "\<forall>n \<in> set (rs @ [entry]). n \<notin> set IGNORE"
          by auto
        from here Dir have "x \<in> set (collectEntries exts base (join [d, entry]) sub)"
          by simp
        then have "\<exists>ns. ns \<noteq> [] \<and> (\<forall>n \<in> set ns. wf_name n \<and> n \<notin> set IGNORE)
            \<and> extname (last ns) \<in> set exts \<and> x = join_with ''/'' ((rs @ [entry]) @ ns)"
          using wf' d' by (intro "2.IH"(2) [OF False Dir sub _ ign "2.prems"(4)]) simp_all
        then obtain ns where ns: "ns \<noteq> []" "\<forall>n \<in> set ns. wf_name n \<and> n \<notin> set IGNORE"
          "extname (last ns) \<in> set exts" "x = join_with ''/'' ((rs @ [entry]) @ ns)"
          by blast
        let ?ns = "entry # ns"
        from ns entry False have "?ns \<noteq> [] \<and> (\<forall>n \<in> set ?ns. wf_name n \<and> n \<notin> set IGNORE)
            \<and> extname (last ?ns) \<in> set exts \<and> x = join_with ''/'' (rs @ ?ns)"
          by simp
        then show ?thesis by blast
      next
        case (File c)
        with here have ext: "extname entry \<in> set exts" and x: "x = relative base (join [d, entry])"
          by (auto split: if_splits)
        from "2.prems"(2) entry have "\<forall>n \<in> set bs. wf_name n" "\<forall>n \<in> set (rs @ [entry]). wf_name n"
          by auto
        from relative_abs_path [OF this] x d' "2.prems"(4)
        have "x = join_with ''/'' (rs @ [entry])" by simp
        with ext entry False
        have "[entry] \<noteq> [] \<and> (\<forall>n \<in> set [entry]. wf_name n \<and> n \<notin> set IGNORE)
            \<and> extname (last [entry]) \<in> set exts \<and> x = join_with ''/'' (rs @ [entry])"
          by simp
        then show ?thesis by blast
      qed
    qed
  qed
qed

lemma listed_path_shape:
  assumes "ns \<noteq> []" and "\<forall>n \<in> set ns. wf_name n \<and> n \<notin> set IGNORE"
    and "extname (last ns) \<in> set EXTENSIONS"
  shows "(\<exists>e \<in> set EXTENSIONS. suffix e (join_with ''/'' ns))
      \<and> (\<forall>c \<in> set (split_on CHR ''/'' (join_with ''/'' ns)). c \<notin> set IGNORE)"
proof -
  from assms(3) have "extname (last ns) \<noteq> []"
    by (auto simp: EXTENSIONS_def)
  from extname_suffix [OF refl this] have "suffix (extname (last ns)) (last ns)" .
  from this suffix_join_last [OF assms(1), of "''/''"]
  have "suffix (extname (last ns)) (join_with ''/'' ns)"
    by (rule suffix_order.trans)
  with assms(3) have a: "\<exists>e \<in> set EXTENSIONS. suffix e (join_with ''/'' ns)"
    by blast
  from assms(1,2) have "split_on CHR ''/'' (join_with ''/'' ns) = ns"
    by (intro split_on_join) (auto simp: wf_name_def)
  with assms(2) a show ?thesis by simp
qed

lemma package_dir_abs_path:
  "p \<in> set (PACKAGES dirname) \<Longrightarrow> \<exists>ds. (\<forall>n \<in> set ds. wf_name n) \<and> dir p = abs_path ds"
proof -
  assume p: "p \<in> set (PACKAGES dirname)"
  from root_abs_path [of dirname] obtain rs where
    rs: "\<forall>n \<in> set rs. wf_name n" "PACKAGES_ROOT dirname = abs_path rs"
    by blast
  have sub: "\<exists>ds. (\<forall>n \<in> set ds. wf_name n) \<and> join [PACKAGES_ROOT dirname, n] = abs_path ds"
    if "wf_name n" for n
  proof -
    from join_abs_path [OF rs(1) that] rs(2) that rs(1)
    have "(\<forall>m \<in> set (rs @ [n]). wf_name m) \<and> join [PACKAGES_ROOT dirname, n] = abs_path (rs @ [n])"
      by simp
    then show ?thesis by blast
  qed
  have names: "wf_name ''form''" "wf_name ''queries''" "wf_name ''pages''"
    by (simp_all add: wf_name_def)
  from p have "dir p = PACKAGES_ROOT dirname \<or> dir p = join [PACKAGES_ROOT dirname, ''form'']
      \<or> dir p = join [PACKAGES_ROOT dirname, ''queries'']
      \<or> dir p = join [PACKAGES_ROOT dirname, ''pages'']"
    by (auto simp: PACKAGES_def)
  with rs sub [OF names(1)] sub [OF names(2)] sub [OF names(3)] show ?thesis
    by metis
qed

lemma collectSourceFiles_shape:
  assumes "wf_fs fs" and "p \<in> set (PACKAGES dirname)"
    and "collectSourceFiles fs (dir p) = Inr files" and "f \<in> set files"
  shows "(\<exists>e \<in> set EXTENSIONS. suffix e f) \<and> (\<forall>c \<in> set (split_on CHR ''/'' f). c \<notin> set IGNORE)"
proof -
  from package_dir_abs_path [OF assms(2)] obtain ds where
    ds: "\<forall>n \<in> set ds. wf_name n" "dir p = abs_path ds"
    by blast
  from assms(3,4) obtain es where es: "lookup fs (dir p) = Some (Dir es)"
    and f: "f \<in> set (collectEntries EXTENSIONS (dir p) (dir p) es)"
    by (auto simp: collectSourceFiles_def split: if_splits option.splits fsnode.splits)
  from lookup_wf [OF assms(1) es] have wf: "\<forall>e \<in> set es. wf_name (fst e) \<and> wf_fs (snd e)"
    by simp
  from collectEntries_paths [OF wf _ _ ds(2) _ f, of "[]"] ds
  obtain ns where "ns \<noteq> []" "\<forall>n \<in> set ns. wf_name n \<and> n \<notin> set IGNORE"
    "extname (last ns) \<in> set EXTENSIONS" "f = join_with ''/'' ns"
    by auto
  with listed_path_shape [of ns] show ?thesis by simp
qed

subsection \<open>The remote listing\<close>

lemma split_on_first:
  "split_on s f = y # ys \<Longrightarrow> f = y \<or> prefix (y @ [s]) f"
proof (induction f arbitrary: y ys)
  case Nil
  then show ?case by simp
next
  case (Cons x xs)
  obtain z zs where z: "split_on s xs = z # zs"
    using split_on_not_Nil [of s xs] by (cases "split_on s xs") auto
  show ?case
  proof (cases "x = s")
    case True
    with Cons.prems show ?thesis by auto
  next
    case False
    with Cons.prems z have "y = x # z" by simp
    with Cons.IH [OF z] show ?thesis by auto
  qed
qed

lemma split_on_later:
  "c \<in> set (tl (split_on s f)) \<Longrightarrow> suffix (s # c) f \<or> sublist (s # c @ [s]) f"
proof (induction f)
  case Nil
  then show ?case by simp
next
  case (Cons x xs)
  obtain z zs where z: "split_on s xs = z # zs"
    using split_on_not_Nil [of s xs] by (cases "split_on s xs") auto
  show ?case
  proof (cases "x = s")
    case True
    with Cons.prems z have "c = z \<or> c \<in> set (tl (split_on s xs))" by auto
    then show ?thesis
    proof
      assume "c = z"
      with split_on_first [OF z] have "xs = c \<or> prefix (c @ [s]) xs" by simp
      then show ?thesis
      proof
        assume "xs = c"
        with True show ?thesis by simp
      next
        assume "prefix (c @ [s]) xs"
        with True have "prefix (s # c @ [s]) (x # xs)" by simp
        then have "sublist (s # c @ [s]) (x # xs)" by (rule prefix_imp_sublist)
        then show ?thesis by (rule disjI2)
      qed
    next
      assume "c \<in> set (tl (split_on s xs))"
      from Cons.IH [OF this] show ?thesis
        by (auto simp: suffix_Cons sublist_Cons_right)
    qed
  next
    case False
    with Cons.prems z have "c \<in> set (tl (split_on s xs))" by simp
    from Cons.IH [OF this] show ?thesis
      by (auto simp: suffix_Cons sublist_Cons_right)
  qed
qed

lemma split_on_component:
  "c \<in> set (split_on s f) \<Longrightarrow>
   f = c \<or> prefix (c @ [s]) f \<or> suffix (s # c) f \<or> sublist (s # c @ [s]) f"
proof -
  assume c: "c \<in> set (split_on s f)"
  obtain y ys where y: "split_on s f = y # ys"
    using split_on_not_Nil [of s f] by (cases "split_on s f") auto
  with c have "c = y \<or> c \<in> set (tl (split_on s f))" by auto
  with split_on_first [OF y] split_on_later [of c s f] show ?thesis by blast
qed

lemma ignored_not_source_name:
  "c \<in> set IGNORE \<Longrightarrow> e \<in> set EXTENSIONS \<Longrightarrow> \<not> suffix e c \<and> \<not> suffix e (CHR ''/'' # c)"
  by (auto simp: IGNORE_def EXTENSIONS_def suffix_to_prefix)

lemma keepPath_shape:
  assumes "basePath q = []" and "keepPath q f"
  shows "(\<exists>e \<in> set EXTENSIONS. suffix e f) \<and> (\<forall>c \<in> set (split_on CHR ''/'' f). c \<notin> set IGNORE)"
proof -
  from assms have ext: "\<exists>e \<in> set EXTENSIONS. suffix e f"
    and ign: "\<forall>c \<in> set IGNORE. \<not> sublist (''/'' @ c @ ''/'') f \<and> \<not> prefix (c @ ''/'') f"
    by (auto simp: keepPath_def list_ex_iff EXTENSIONS_def split: if_splits)
  have "c \<notin> set IGNORE" if c: "c \<in> set (split_on CHR ''/'' f)" for c
  proof
    assume i: "c \<in> set IGNORE"
    from ext obtain e where e: "e \<in> set EXTENSIONS" "suffix e f" by blast
    from ign i have "\<not> sublist (CHR ''/'' # c @ ''/'') f" "\<not> prefix (c @ ''/'') f"
      by auto
    with split_on_component [OF c] have "f = c \<or> suffix (CHR ''/'' # c) f"
      by blast
    then show False
    proof
      assume "f = c"
      with e ignored_not_source_name [OF i e(1)] show False by simp
    next
      assume "suffix (CHR ''/'' # c) f"
      with e(2) have "suffix e (CHR ''/'' # c) \<or> suffix (CHR ''/'' # c) e"
        by (meson suffix_same_cases)
      moreover from e(1) have "CHR ''/'' \<notin> set e"
        by (auto simp: EXTENSIONS_def)
      then have "\<not> suffix (CHR ''/'' # c) e"
        by (auto simp: suffix_def)
      ultimately show False
        using ignored_not_source_name [OF i e(1)] by blast
    qed
  qed
  with ext show ?thesis by blast
qed

lemma findPackage_member: "findPackage dirname i = Some p \<Longrightarrow> p \<in> set (PACKAGES dirname)"
  by (auto simp: findPackage_def find_Some_iff)

lemma findPackage_remote_basePath: "findPackage_remote i = Some q \<Longrightarrow> basePath q = []"
proof -
  assume "findPackage_remote i = Some q"
  then have "q \<in> set PACKAGES_remote"
    by (auto simp: findPackage_remote_def find_Some_iff)
  then show ?thesis by (auto simp: PACKAGES_remote_def)
qed

text \<open>
  C7. The listing that \<open>get_package_source\<close> returns when no file path is given holds
  only paths that end in \<open>.ts\<close>, \<open>.tsx\<close>, \<open>.js\<close> or \<open>.jsx\<close>, and no path with a component
  (a piece between slashes) equal to \<open>node_modules\<close>, \<open>dist\<close>, \<open>.git\<close>, \<open>.github\<close> or
  \<open>.claude\<close>. This holds for every package of the registry: in the local variant on a
  file system whose entry names are well formed, in the remote variant on every tree the
  hosting service answers with.
\<close>

theorem source_listing_filtered:
  "(wf_fs fs \<and> findPackage dirname packageId = Some p \<and> falsy filePath
      \<and> collectSourceFiles fs (dir p) = Inr files \<longrightarrow>
      get_package_source fs dirname packageId filePath
        = Inr \<lparr>etext = sourceListing (name p) files, isError = False\<rparr> \<and>
      (\<forall>f \<in> set files.
         (\<exists>e \<in> set EXTENSIONS. suffix e f) \<and>
         (\<forall>c \<in> set (split_on CHR ''/'' f). c \<notin> set IGNORE))) \<and>
   (findPackage_remote packageId = Some q \<and> falsy filePath
      \<and> fetchGitHubAPI tree_api
           (''/repos/'' @ repo q @ ''/git/trees/'' @ branch q @ ''?recursive=1'') = Inr tree \<longrightarrow>
      get_package_source_remote tree_api fetch token packageId filePath
        = \<lparr>etext = sourceListing (r_name q) (listFiles_remote q tree), isError = False\<rparr> \<and>
      (\<forall>f \<in> set (listFiles_remote q tree).
         (\<exists>e \<in> set EXTENSIONS. suffix e f) \<and>
         (\<forall>c \<in> set (split_on CHR ''/'' f). c \<notin> set IGNORE))) \<and>
   EXTENSIONS = [''.ts'', ''.tsx'', ''.js'', ''.jsx''] \<and>
   IGNORE = [''node_modules'', ''dist'', ''.git'', ''.github'', ''.claude'']"
proof -
  have l: "get_package_source fs dirname packageId filePath
        = Inr \<lparr>etext = sourceListing (name p) files, isError = False\<rparr> \<and>
      (\<forall>f \<in> set files.
         (\<exists>e \<in> set EXTENSIONS. suffix e f) \<and>
         (\<forall>c \<in> set (split_on CHR ''/'' f). c \<notin> set IGNORE))"
    if "wf_fs fs" and fp: "findPackage dirname packageId = Some p" and "falsy filePath"
      and "collectSourceFiles fs (dir p) = Inr files"
  proof -
    from that have "get_package_source fs dirname packageId filePath
        = Inr \<lparr>etext = sourceListing (name p) files, isError = False\<rparr>"
      by (simp add: get_package_source_def ok_def)
    with collectSourceFiles_shape [OF that(1) findPackage_member [OF fp] that(4)]
    show ?thesis by blast
  qed
  have r: "get_package_source_remote tree_api fetch token packageId filePath
        = \<lparr>etext = sourceListing (r_name q) (listFiles_remote q tree), isError = False\<rparr> \<and>
      (\<forall>f \<in> set (listFiles_remote q tree).
         (\<exists>e \<in> set EXTENSIONS. suffix e f) \<and>
         (\<forall>c \<in> set (split_on CHR ''/'' f). c \<notin> set IGNORE))"
    if fq: "findPackage_remote packageId = Some q" and "falsy filePath"
      and "fetchGitHubAPI tree_api
           (''/repos/'' @ repo q @ ''/git/trees/'' @ branch q @ ''?recursive=1'') = Inr tree"
  proof -
    note bp = findPackage_remote_basePath [OF fq]
    from that have "get_package_source_remote tree_api fetch token packageId filePath
        = \<lparr>etext = sourceListing (r_name q) (listFiles_remote q tree), isError = False\<rparr>"
      by (simp add: get_package_source_remote_def ok_def)
    moreover from bp have "\<forall>f \<in> set (listFiles_remote q tree). keepPath q f"
      by (simp add: listFiles_remote_def)
    ultimately show ?thesis
      using keepPath_shape [OF bp] by blast
  qed
  from l r show ?thesis
    by (simp add: EXTENSIONS_def IGNORE_def)
qed

theorem source_listing_filtered_witness:
  "wf_fs example_fs \<and>
   get_package_source example_fs example_dirname ''react-core'' None
     = Inr \<lparr>etext = sourceListing ''@gaddario98/react-core''
                 [''index.ts'', ''form/types.ts'', ''form/hooks/useForm.tsx'', ''queries/types.ts''],
              isError = False\<rparr> \<and>
   (\<exists>e \<in> set EXTENSIONS. suffix e ''form/hooks/useForm.tsx'') \<and>
   list_all (\<lambda>c. c \<notin> set IGNORE) (split_on CHR ''/'' ''form/hooks/useForm.tsx'') \<and>
   get_package_source_remote example_tree example_fetch None ''react-core'' None
     = \<lparr>etext = sourceListing ''@gaddario98/react-core'' [''src/index.ts''], isError = False\<rparr> \<and>
   (\<exists>e \<in> set EXTENSIONS. suffix e ''src/index.ts'') \<and>
   list_all (\<lambda>c. c \<notin> set IGNORE) (split_on CHR ''/'' ''src/index.ts'')"
proof -
  let ?p = "PACKAGES example_dirname ! 0" and ?q = "PACKAGES_remote ! 0"
  let ?files = "[''index.ts'', ''form/types.ts'', ''form/hooks/useForm.tsx'', ''queries/types.ts'']"
  let ?tree = "[\<lparr>item_type = ''tree'', item_path = ''src''\<rparr>,
             \<lparr>item_type = ''blob'', item_path = ''src/index.ts''\<rparr>,
             \<lparr>item_type = ''blob'', item_path = ''dist/index.js''\<rparr>,
             \<lparr>item_type = ''blob'', item_path = ''src/node_modules/a/b.js''\<rparr>,
             \<lparr>item_type = ''blob'', item_path = ''README.md''\<rparr>]"
  have a: "wf_fs example_fs"
    by code_simp
  have b: "findPackage example_dirname ''react-core'' = Some ?p \<and> falsy None
      \<and> collectSourceFiles example_fs (dir ?p) = Inr ?files"
    by code_simp
  have b': "name ?p = ''@gaddario98/react-core''"
    by code_simp
  have c: "findPackage_remote ''react-core'' = Some ?q \<and> falsy None
      \<and> fetchGitHubAPI example_tree
           (''/repos/'' @ repo ?q @ ''/git/trees/'' @ branch ?q @ ''?recursive=1'') = Inr ?tree"
    by code_simp
  have c': "r_name ?q = ''@gaddario98/react-core''" "listFiles_remote ?q ?tree = [''src/index.ts'']"
    by code_simp+
  note lst = source_listing_filtered
  from a b lst [where fs = example_fs and dirname = example_dirname and packageId = "''react-core''"
      and p = ?p and filePath = None and files = ?files]
  have 1: "get_package_source example_fs example_dirname ''react-core'' None
        = Inr \<lparr>etext = sourceListing (name ?p) ?files, isError = False\<rparr> \<and>
      (\<forall>f \<in> set ?files.
         (\<exists>e \<in> set EXTENSIONS. suffix e f) \<and>
         (\<forall>c \<in> set (split_on CHR ''/'' f). c \<notin> set IGNORE))"
    by blast
  from c lst [where packageId = "''react-core''" and q = ?q and filePath = None
      and tree_api = example_tree and tree = ?tree and fetch = example_fetch and token = None]
  have 2: "get_package_source_remote example_tree example_fetch None ''react-core'' None
        = \<lparr>etext = sourceListing (r_name ?q) (listFiles_remote ?q ?tree), isError = False\<rparr> \<and>
      (\<forall>f \<in> set (listFiles_remote ?q ?tree).
         (\<exists>e \<in> set EXTENSIONS. suffix e f) \<and>
         (\<forall>c \<in> set (split_on CHR ''/'' f). c \<notin> set IGNORE))"
    by blast
  note l = 1 [unfolded b'] and r = 2 [unfolded c']
  have m: "''form/hooks/useForm.tsx'' \<in> set ?files" "''src/index.ts'' \<in> set [''src/index.ts'']"
    by simp_all
  from l m(1)
  have 3: "(\<exists>e \<in> set EXTENSIONS. suffix e ''form/hooks/useForm.tsx'')
      \<and> list_all (\<lambda>c. c \<notin> set IGNORE) (split_on CHR ''/'' ''form/hooks/useForm.tsx'')"
    unfolding list_all_iff by blast
  from r m(2)
  have 4: "(\<exists>e \<in> set EXTENSIONS. suffix e ''src/index.ts'')
      \<and> list_all (\<lambda>c. c \<notin> set IGNORE) (split_on CHR ''/'' ''src/index.ts'')"
    unfolding list_all_iff by blast
  from a l [THEN conjunct1] 3 r [THEN conjunct1] 4 show ?thesis
    by (intro conjI) (erule conjunct1 conjunct2 | assumption)+
qed

end
